theory Spec2Isabelle
  imports Complex_Main
begin

unbundle bit_operations_syntax

section \<open>Python values and exceptions\<close>

text \<open>
  The pipeline of \<^verbatim>\<open>tools/splat_to_atlas.py\<close> is embedded function by function.
  Python floats are idealised as \<^typ>\<open>real\<close> (no NaN, no infinity, no rounding), Python
  ints are \<^typ>\<open>int\<close>, and every exception the interpreter can raise on these values is a
  value of \<open>py_error\<close>: a function that may raise returns \<open>py_error + 'a\<close>.
\<close>

datatype py_error =
  ZeroDivisionError | IndexError | KeyError | ValueError | OverflowError | StructError

definition bind_res :: "py_error + 'a \<Rightarrow> ('a \<Rightarrow> py_error + 'b) \<Rightarrow> py_error + 'b" where
  "bind_res m f = (case m of Inl e \<Rightarrow> Inl e | Inr x \<Rightarrow> f x)"

text \<open>True division \<^verbatim>\<open>a / b\<close> of two floats.\<close>

definition fdiv :: "real \<Rightarrow> real \<Rightarrow> py_error + real" where
  "fdiv a b = (if b = 0 then Inl ZeroDivisionError else Inr (a / b))"

text \<open>\<^verbatim>\<open>int(x)\<close> of a float truncates towards zero.\<close>

definition py_int :: "real \<Rightarrow> int" where
  "py_int x = (if 0 \<le> x then \<lfloor>x\<rfloor> else \<lceil>x\<rceil>)"

type_synonym vec3 = "real \<times> real \<times> real"
type_synonym quat = "real \<times> real \<times> real \<times> real"
type_synonym mat3 = "vec3 \<times> vec3 \<times> vec3"
type_synonym cov6 = "real \<times> real \<times> real \<times> real \<times> real \<times> real"

section \<open>Covariance Builder\<close>

text \<open>The numpy operations used on 3x3 arrays: \<^verbatim>\<open>np.diag\<close>, \<^verbatim>\<open>.T\<close> and \<^verbatim>\<open>np.dot\<close>.\<close>

fun np_diag :: "vec3 \<Rightarrow> mat3" where
  "np_diag (a, b, c) = ((a, 0, 0), (0, b, 0), (0, 0, c))"

fun transpose3 :: "mat3 \<Rightarrow> mat3" where
  "transpose3 ((a, b, c), (d, e, f), (g, h, i)) = ((a, d, g), (b, e, h), (c, f, i))"

fun vdot :: "vec3 \<Rightarrow> vec3 \<Rightarrow> real" where
  "vdot (a, b, c) (x, y, z) = a * x + b * y + c * z"

fun np_dot :: "mat3 \<Rightarrow> mat3 \<Rightarrow> mat3" where
  "np_dot (r0, r1, r2) B =
     (case transpose3 B of (c0, c1, c2) \<Rightarrow>
        ((vdot r0 c0, vdot r0 c1, vdot r0 c2),
         (vdot r1 c0, vdot r1 c1, vdot r1 c2),
         (vdot r2 c0, vdot r2 c1, vdot r2 c2)))"

text \<open>Lines 136-139: the quaternion is divided by its norm only when the norm is positive.\<close>

fun quat_norm :: "quat \<Rightarrow> real" where
  "quat_norm (qx, qy, qz, qw) = sqrt (qx * qx + qy * qy + qz * qz + qw * qw)"

fun normalize_quat :: "quat \<Rightarrow> py_error + quat" where
  "normalize_quat (qx, qy, qz, qw) =
     (let norm = quat_norm (qx, qy, qz, qw) in
      if norm > 0 then
        bind_res (fdiv qx norm) (\<lambda>x.
        bind_res (fdiv qy norm) (\<lambda>y.
        bind_res (fdiv qz norm) (\<lambda>z.
        bind_res (fdiv qw norm) (\<lambda>w. Inr (x, y, z, w)))))
      else Inr (qx, qy, qz, qw))"

text \<open>Lines 142-146: quaternion to rotation matrix.\<close>

fun rotation_matrix :: "quat \<Rightarrow> mat3" where
  "rotation_matrix (qx, qy, qz, qw) =
     ((1 - 2 * (qy * qy + qz * qz), 2 * (qx * qy - qz * qw), 2 * (qx * qz + qy * qw)),
      (2 * (qx * qy + qz * qw), 1 - 2 * (qx * qx + qz * qz), 2 * (qy * qz - qx * qw)),
      (2 * (qx * qz - qy * qw), 2 * (qy * qz + qx * qw), 1 - 2 * (qx * qx + qy * qy)))"

text \<open>Lines 149-156: \<^verbatim>\<open>RS = R.S\<close>, \<^verbatim>\<open>cov = RS.RS^T\<close>, and the upper triangle of \<^verbatim>\<open>cov\<close>.\<close>

definition scaled_rotation :: "vec3 \<Rightarrow> quat \<Rightarrow> mat3" where
  "scaled_rotation sc q = np_dot (rotation_matrix q) (np_diag sc)"

fun upper_triangle :: "mat3 \<Rightarrow> cov6" where
  "upper_triangle ((c00, c01, c02), (c10, c11, c12), (c20, c21, c22)) =
     (c00, c01, c02, c11, c12, c22)"

definition compute_covariance_from_scale_rot :: "vec3 \<Rightarrow> quat \<Rightarrow> py_error + cov6" where
  "compute_covariance_from_scale_rot sc rot =
     bind_res (normalize_quat rot) (\<lambda>q.
       let RS = scaled_rotation sc q;
           cov = np_dot RS (transpose3 RS)
       in Inr (upper_triangle cov))"



section \<open>Splats and configuration\<close>

text \<open>
  A splat is the dict built by \<^verbatim>\<open>_convert_vertex_to_splat\<close>. The four keys
  \<^verbatim>\<open>atlas_layer\<close>, \<^verbatim>\<open>atlas_u\<close>, \<^verbatim>\<open>atlas_v\<close>, \<^verbatim>\<open>atlas_size\<close> are absent until the packer
  stores them, all four at once: the field \<open>atlas\<close> is \<open>None\<close> while they are absent.
\<close>

record atlas_assignment =
  atlas_layer :: int
  atlas_u :: real
  atlas_v :: real
  splat_atlas_size :: real

record splat =
  pos :: vec3
  color :: vec3
  alpha :: real
  covariance :: cov6
  scale :: vec3
  rotation :: quat
  atlas :: "atlas_assignment option"

text \<open>The attributes of \<^verbatim>\<open>SplatAtlasGenerator\<close> that \<^verbatim>\<open>main\<close> sets from the command line.\<close>

record config =
  atlas_size :: int
  atlas_layers :: int
  max_octree_depth :: int

definition default_config :: config where
  "default_config = \<lparr>atlas_size = 1024, atlas_layers = 4, max_octree_depth = 8\<rparr>"

section \<open>Octree Builder\<close>

text \<open>Bounds are stored as \<^verbatim>\<open>[min x, min y, min z, max x, max y, max z]\<close>.\<close>

type_synonym bounds = "real \<times> real \<times> real \<times> real \<times> real \<times> real"

fun bounds_of :: "vec3 \<Rightarrow> vec3 \<Rightarrow> bounds" where
  "bounds_of (a, b, c) (d, e, f) = (a, b, c, d, e, f)"

datatype octree =
    Leaf "nat list" bounds
  | Internal "octree option list" bounds

text \<open>Elementwise numpy arithmetic on 3-vectors.\<close>

fun vadd :: "vec3 \<Rightarrow> vec3 \<Rightarrow> vec3" where
  "vadd (a, b, c) (x, y, z) = (a + x, b + y, c + z)"

fun vsub :: "vec3 \<Rightarrow> vec3 \<Rightarrow> vec3" where
  "vsub (a, b, c) (x, y, z) = (a - x, b - y, c - z)"

fun vhalf :: "vec3 \<Rightarrow> vec3" where
  "vhalf (a, b, c) = (a / 2, b / 2, c / 2)"

fun vshift :: "vec3 \<Rightarrow> real \<Rightarrow> vec3" where
  "vshift (a, b, c) d = (a + d, b + d, c + d)"

fun vmin :: "vec3 \<Rightarrow> vec3 \<Rightarrow> vec3" where
  "vmin (a, b, c) (x, y, z) = (min a x, min b y, min c z)"

fun vmax :: "vec3 \<Rightarrow> vec3 \<Rightarrow> vec3" where
  "vmax (a, b, c) (x, y, z) = (max a x, max b y, max c z)"

fun max3 :: "vec3 \<Rightarrow> real" where
  "max3 (a, b, c) = max a (max b c)"

text \<open>\<^verbatim>\<open>np.min(positions, axis=0)\<close> and \<^verbatim>\<open>np.max(positions, axis=0)\<close>; numpy raises on an empty list.\<close>

fun np_min_axis0 :: "vec3 list \<Rightarrow> py_error + vec3" where
  "np_min_axis0 [] = Inl ValueError"
| "np_min_axis0 (p # ps) = Inr (fold (\<lambda>q acc. vmin acc q) ps p)"

fun np_max_axis0 :: "vec3 list \<Rightarrow> py_error + vec3" where
  "np_max_axis0 [] = Inl ValueError"
| "np_max_axis0 (p # ps) = Inr (fold (\<lambda>q acc. vmax acc q) ps p)"

text \<open>
  Lines 271-279: the bounds of an octant are copies of the node's bounds in which, per axis,
  one end is replaced by the centre, chosen by the bit of \<open>octant\<close> for that axis.
\<close>

fun octant_min :: "nat \<Rightarrow> vec3 \<Rightarrow> vec3 \<Rightarrow> vec3" where
  "octant_min octant (m0, m1, m2) (c0, c1, c2) =
     (if octant AND 1 \<noteq> 0 then c0 else m0,
      if octant AND 2 \<noteq> 0 then c1 else m1,
      if octant AND 4 \<noteq> 0 then c2 else m2)"

fun octant_max :: "nat \<Rightarrow> vec3 \<Rightarrow> vec3 \<Rightarrow> vec3" where
  "octant_max octant (M0, M1, M2) (c0, c1, c2) =
     (if octant AND 1 \<noteq> 0 then M0 else c0,
      if octant AND 2 \<noteq> 0 then M1 else c1,
      if octant AND 4 \<noteq> 0 then M2 else c2)"

text \<open>Lines 285-287: the membership test, inclusive at both ends on every axis.\<close>

fun in_octant :: "vec3 \<Rightarrow> vec3 \<Rightarrow> vec3 \<Rightarrow> bool" where
  "in_octant (p0, p1, p2) (a0, a1, a2) (b0, b1, b2) =
     (p0 \<ge> a0 \<and> p0 \<le> b0 \<and> p1 \<ge> a1 \<and> p1 \<le> b1 \<and> p2 \<ge> a2 \<and> p2 \<le> b2)"

text \<open>Lines 282-288: the candidate indices of one octant, in the order of \<open>splat_indices\<close>.\<close>

definition octant_splats :: "vec3 list \<Rightarrow> nat list \<Rightarrow> vec3 \<Rightarrow> vec3 \<Rightarrow> nat list" where
  "octant_splats positions splat_indices oct_min oct_max =
     filter (\<lambda>idx. in_octant (positions ! idx) oct_min oct_max) splat_indices"

text \<open>
  \<^verbatim>\<open>_build_octree_recursive\<close>. \<open>positions\<close> is \<^verbatim>\<open>[s['pos'] for s in self.splats]\<close>; the
  indices come from \<^verbatim>\<open>range(len(self.splats))\<close> and are only ever filtered, so the lookup
  \<^verbatim>\<open>self.splats[idx]\<close> stays inside the list.
\<close>

function build_octree_recursive ::
  "vec3 list \<Rightarrow> int \<Rightarrow> nat list \<Rightarrow> vec3 \<Rightarrow> vec3 \<Rightarrow> int \<Rightarrow> octree" where
  "build_octree_recursive positions max_depth splat_indices min_pos max_pos depth =
     (if depth \<ge> max_depth \<or> length splat_indices \<le> 8 then
        Leaf (take 8 splat_indices) (bounds_of min_pos max_pos)
      else
        Internal
          (map (\<lambda>octant.
             if octant_splats positions splat_indices
                  (octant_min octant min_pos (vhalf (vadd min_pos max_pos)))
                  (octant_max octant max_pos (vhalf (vadd min_pos max_pos))) \<noteq> []
             then Some (build_octree_recursive positions max_depth
                    (octant_splats positions splat_indices
                       (octant_min octant min_pos (vhalf (vadd min_pos max_pos)))
                       (octant_max octant max_pos (vhalf (vadd min_pos max_pos))))
                    (octant_min octant min_pos (vhalf (vadd min_pos max_pos)))
                    (octant_max octant max_pos (vhalf (vadd min_pos max_pos)))
                    (depth + 1))
             else None) [0..<8])
          (bounds_of min_pos max_pos))"
  by pat_completeness auto
termination
  by (relation "measure (\<lambda>(positions, max_depth, splat_indices, min_pos, max_pos, depth).
        nat (max_depth - depth))") auto

declare build_octree_recursive.simps [simp del]

text \<open>The flattened array: one dict per node.\<close>

datatype flat_node =
    FLeaf nat "nat list" bounds
  | FInternal "int list" bounds

text \<open>\<^verbatim>\<open>array[node_index]['child_offsets'][i] = v\<close>, with the exceptions Python raises.\<close>

definition set_child_offset :: "flat_node list \<Rightarrow> nat \<Rightarrow> nat \<Rightarrow> int \<Rightarrow> py_error + flat_node list" where
  "set_child_offset array node_index i v =
     (if node_index < length array then
        (case array ! node_index of
           FInternal offs b \<Rightarrow>
             if i < length offs then Inr (array[node_index := FInternal (offs[i := v]) b])
             else Inl IndexError
         | FLeaf n idxs b \<Rightarrow> Inl KeyError)
      else Inl IndexError)"

text \<open>
  \<^verbatim>\<open>_flatten_octree\<close> on a node that is not \<^verbatim>\<open>None\<close>, and its loop over
  \<^verbatim>\<open>enumerate(node['children'])\<close>. The array is threaded through; the result is the
  node's own index and the extended array.
\<close>

fun flatten_node :: "octree \<Rightarrow> flat_node list \<Rightarrow> py_error + (int \<times> flat_node list)"
  and flatten_children ::
    "nat \<Rightarrow> nat \<Rightarrow> octree option list \<Rightarrow> flat_node list \<Rightarrow> py_error + flat_node list" where
  "flatten_node (Leaf idxs b) array =
     Inr (int (length array),
          array @ [FLeaf (length idxs) (idxs @ replicate (8 - length idxs) 0) b])"
| "flatten_node (Internal children b) array =
     bind_res (flatten_children (length array) 0 children (array @ [FInternal (replicate 8 0) b]))
       (\<lambda>array'. Inr (int (length array), array'))"
| "flatten_children node_index i [] array = Inr array"
| "flatten_children node_index i (None # rest) array =
     bind_res (set_child_offset array node_index i (- 1))
       (flatten_children node_index (i + 1) rest)"
| "flatten_children node_index i (Some child # rest) array =
     bind_res (flatten_node child array) (\<lambda>(child_index, array').
     bind_res (set_child_offset array' node_index i child_index)
       (flatten_children node_index (i + 1) rest))"

definition flatten_octree :: "octree option \<Rightarrow> flat_node list \<Rightarrow> py_error + (int \<times> flat_node list)" where
  "flatten_octree node array =
     (case node of None \<Rightarrow> Inr (- 1, array) | Some n \<Rightarrow> flatten_node n array)"

text \<open>\<^verbatim>\<open>build_octree_index\<close>: \<open>None\<close> for an empty splat list, else the flattened array.\<close>

definition root_bounds :: "vec3 list \<Rightarrow> py_error + (vec3 \<times> vec3)" where
  "root_bounds positions =
     bind_res (np_min_axis0 positions) (\<lambda>min_pos.
     bind_res (np_max_axis0 positions) (\<lambda>max_pos.
       let center = vhalf (vadd min_pos max_pos);
           size = max3 (vsub max_pos min_pos) * (11 / 10)
       in Inr (vshift center (- (size / 2)), vshift center (size / 2))))"

definition build_octree_index :: "config \<Rightarrow> splat list \<Rightarrow> py_error + flat_node list option" where
  "build_octree_index cfg splats =
     (if splats = [] then Inr None
      else
        bind_res (root_bounds (map pos splats)) (\<lambda>(min_pos, max_pos).
        bind_res (flatten_octree
                    (Some (build_octree_recursive (map pos splats) (max_octree_depth cfg)
                       [0..<length splats] min_pos max_pos 0)) [])
          (\<lambda>(root_index, octree_array). Inr (Some octree_array))))"

section \<open>Atlas Packer\<close>

text \<open>Integer \<^verbatim>\<open>%\<close>, \<^verbatim>\<open>//\<close> and \<^verbatim>\<open>/\<close>: Python floors as HOL does, and raises on a zero divisor.\<close>

definition py_mod :: "int \<Rightarrow> int \<Rightarrow> py_error + int" where
  "py_mod a b = (if b = 0 then Inl ZeroDivisionError else Inr (a mod b))"

definition py_floordiv :: "int \<Rightarrow> int \<Rightarrow> py_error + int" where
  "py_floordiv a b = (if b = 0 then Inl ZeroDivisionError else Inr (a div b))"

definition py_truediv :: "int \<Rightarrow> int \<Rightarrow> py_error + real" where
  "py_truediv a b = (if b = 0 then Inl ZeroDivisionError else Inr (real_of_int a / real_of_int b))"

text \<open>\<^verbatim>\<open>range(n)\<close>, empty when \<open>n \<le> 0\<close>, and a \<^verbatim>\<open>for\<close> loop whose body may raise.\<close>

definition py_range :: "int \<Rightarrow> int list" where
  "py_range n = [0..n - 1]"

fun for_each :: "'a list \<Rightarrow> ('a \<Rightarrow> 's \<Rightarrow> py_error + 's) \<Rightarrow> 's \<Rightarrow> py_error + 's" where
  "for_each [] body s = Inr s"
| "for_each (x # xs) body s = bind_res (body x s) (for_each xs body)"

text \<open>
  The position that index \<open>i\<close> addresses in a sequence of \<open>n\<close> items: Python and numpy count
  a negative index from the end and raise \<^verbatim>\<open>IndexError\<close> outside \<open>[-n, n)\<close>.
\<close>

definition py_index :: "int \<Rightarrow> int \<Rightarrow> py_error + nat" where
  "py_index n i =
     (if 0 \<le> i \<and> i < n then Inr (nat i)
      else if - n \<le> i \<and> i < 0 then Inr (nat (i + n))
      else Inl IndexError)"

text \<open>
  An atlas layer is \<^verbatim>\<open>np.zeros((atlas_size, atlas_size, 4), dtype=np.uint8)\<close>, indexed
  \<^verbatim>\<open>[y, x]\<close>; numpy refuses a negative dimension. Storing a Python int outside \<open>0..255\<close>
  into a \<^verbatim>\<open>uint8\<close> array raises \<^verbatim>\<open>OverflowError\<close> in numpy 2 (numpy 1 reduced it modulo
  256): the model takes the strict behaviour, so whatever it returns is what either
  library computes.
\<close>

type_synonym pixel = "int \<times> int \<times> int \<times> int"
type_synonym atlas_image = "nat \<times> nat \<Rightarrow> pixel"

definition np_zeros :: "int \<Rightarrow> py_error + atlas_image" where
  "np_zeros n = (if n < 0 then Inl ValueError else Inr (\<lambda>yx. (0, 0, 0, 0)))"

definition to_uint8 :: "int \<Rightarrow> py_error + int" where
  "to_uint8 v = (if 0 \<le> v \<and> v \<le> 255 then Inr v else Inl OverflowError)"

definition atlas_store :: "int \<Rightarrow> atlas_image \<Rightarrow> int \<Rightarrow> int \<Rightarrow> pixel \<Rightarrow> py_error + atlas_image" where
  "atlas_store n a y x px =
     (case px of (r, g, b, al) \<Rightarrow>
        bind_res (py_index n y) (\<lambda>yy.
        bind_res (py_index n x) (\<lambda>xx.
        bind_res (to_uint8 r) (\<lambda>r'.
        bind_res (to_uint8 g) (\<lambda>g'.
        bind_res (to_uint8 b) (\<lambda>b'.
        bind_res (to_uint8 al) (\<lambda>al'. Inr (a((yy, xx) := (r', g', b', al'))))))))))"

text \<open>
  \<^verbatim>\<open>_render_splat_to_atlas\<close>: the body of the two loops (lines 210-222), then the loops over
  \<^verbatim>\<open>dy\<close> and \<^verbatim>\<open>dx\<close>. \<open>n\<close> is \<^verbatim>\<open>self.atlas_size\<close>.
\<close>

definition render_pixel ::
  "int \<Rightarrow> int \<Rightarrow> int \<Rightarrow> int \<Rightarrow> splat \<Rightarrow> int \<Rightarrow> int \<Rightarrow> atlas_image \<Rightarrow> py_error + atlas_image" where
  "render_pixel n x y tile splat dy dx a =
     (let center = tile div 2;
          sigma = real_of_int tile / 6;
          dist_sq = (dx - center)\<^sup>2 + (dy - center)\<^sup>2
      in bind_res (fdiv (- real_of_int dist_sq) (2 * sigma\<^sup>2)) (\<lambda>e.
           let weight = exp e;
               al = py_int (alpha splat * weight * 255);
               atlas_x = x + dx;
               atlas_y = y + dy
           in if atlas_x < n \<and> atlas_y < n then
                (case color splat of (c0, c1, c2) \<Rightarrow>
                   atlas_store n a atlas_y atlas_x
                     (py_int (c0 * 255), py_int (c1 * 255), py_int (c2 * 255), al))
              else Inr a))"

definition render_splat_to_atlas ::
  "int \<Rightarrow> atlas_image \<Rightarrow> int \<Rightarrow> int \<Rightarrow> int \<Rightarrow> splat \<Rightarrow> py_error + atlas_image" where
  "render_splat_to_atlas n a x y tile splat =
     for_each (py_range tile)
       (\<lambda>dy. for_each (py_range tile) (\<lambda>dx. render_pixel n x y tile splat dy dx)) a"

text \<open>Line 177: the tile size of a splat in pixels.\<close>

definition splat_size :: "splat \<Rightarrow> int" where
  "splat_size s = max 8 (min 64 (py_int (max3 (scale s) * 100)))"

text \<open>
  Line 169: \<^verbatim>\<open>sorted(self.splats, key=..., reverse=True)\<close> builds a new list of references to
  the same dicts. A reference is the position of the dict in \<^verbatim>\<open>self.splats\<close>; Python's
  sort is stable and \<^verbatim>\<open>reverse=True\<close> keeps the order of equal keys, as the stable sort on
  the negated key does.
\<close>

definition sorted_refs :: "splat list \<Rightarrow> nat list" where
  "sorted_refs ss = sort_key (\<lambda>r. - max3 (scale (ss ! r))) [0..<length ss]"

text \<open>
  The state of the packing loop: the atlas layers, \<^verbatim>\<open>self.splats\<close> (its dicts are the
  ones the loop mutates through the sorted references) and \<^verbatim>\<open>packed_count\<close>.
\<close>

record pack_state =
  atlases :: "atlas_image list"
  self_splats :: "splat list"
  packed_count :: int

text \<open>Lines 174-197: the loop body for the \<open>i\<close>-th sorted splat, the dict at position \<open>r\<close>.\<close>

definition pack_splat :: "config \<Rightarrow> nat \<times> nat \<Rightarrow> pack_state \<Rightarrow> py_error + pack_state" where
  "pack_splat cfg ir st =
     (case ir of (i, r) \<Rightarrow>
        let splat = self_splats st ! r in
        bind_res (py_mod (int i) (atlas_layers cfg)) (\<lambda>layer.
        let tile = splat_size splat in
        bind_res (py_floordiv (atlas_size cfg) tile) (\<lambda>grid_size.
        bind_res (py_floordiv (int i) (atlas_layers cfg)) (\<lambda>k.
        bind_res (py_mod k grid_size) (\<lambda>grid_x.
        bind_res (py_floordiv k grid_size) (\<lambda>k2.
        bind_res (py_mod k2 grid_size) (\<lambda>grid_y.
          if grid_y * tile + tile \<le> atlas_size cfg then
            let x = grid_x * tile; y = grid_y * tile in
            bind_res (py_index (int (length (atlases st))) layer) (\<lambda>l.
            bind_res (render_splat_to_atlas (atlas_size cfg) (atlases st ! l) x y tile splat) (\<lambda>a'.
            bind_res (py_truediv x (atlas_size cfg)) (\<lambda>u.
            bind_res (py_truediv y (atlas_size cfg)) (\<lambda>v.
            bind_res (py_truediv tile (atlas_size cfg)) (\<lambda>sz.
              Inr (st\<lparr>atlases := (atlases st)[l := a'],
                       self_splats := (self_splats st)
                         [r := splat\<lparr>atlas := Some \<lparr>atlas_layer = layer, atlas_u = u,
                                                   atlas_v = v, splat_atlas_size = sz\<rparr>\<rparr>],
                       packed_count := packed_count st + 1\<rparr>))))))
          else Inr st)))))))"

text \<open>Lines 163-166: one zeroed layer per \<^verbatim>\<open>range(self.atlas_layers)\<close>.\<close>

definition create_atlases :: "config \<Rightarrow> py_error + atlas_image list" where
  "create_atlases cfg =
     for_each (py_range (atlas_layers cfg))
       (\<lambda>layer as. bind_res (np_zeros (atlas_size cfg)) (\<lambda>a. Inr (as @ [a]))) []"

text \<open>
  \<^verbatim>\<open>generate_texture_atlas\<close>. The result holds the returned layers, the splats with the atlas
  keys the loop has stored, and the count that the function prints.
\<close>

definition generate_texture_atlas :: "config \<Rightarrow> splat list \<Rightarrow> py_error + pack_state" where
  "generate_texture_atlas cfg ss =
     bind_res (create_atlases cfg) (\<lambda>as.
       for_each (enumerate 0 (sorted_refs ss)) (pack_splat cfg)
         \<lparr>atlases = as, self_splats = ss, packed_count = 0\<rparr>)"

section \<open>Asset Exporter\<close>

text \<open>
  A written file is the sequence of values that \<^verbatim>\<open>struct.pack\<close> has packed into it, each
  tagged with its format code: \<^verbatim>\<open>B\<close> is one byte, \<^verbatim>\<open>I\<close>, \<^verbatim>\<open>i\<close> and \<^verbatim>\<open>f\<close> are four.
  \<^verbatim>\<open>struct.pack\<close> raises \<^verbatim>\<open>struct.error\<close> for an integer outside the range of its code.
\<close>

datatype field = U8 int | U32 int | I32 int | F32 real

fun field_size :: "field \<Rightarrow> nat" where
  "field_size (U8 v) = 1"
| "field_size (U32 v) = 4"
| "field_size (I32 v) = 4"
| "field_size (F32 v) = 4"

definition byte_size :: "field list \<Rightarrow> nat" where
  "byte_size fs = sum_list (map field_size fs)"

definition pack_I :: "int \<Rightarrow> py_error + field list" where
  "pack_I v = (if 0 \<le> v \<and> v < 2 ^ 32 then Inr [U32 v] else Inl StructError)"

definition pack_i :: "int \<Rightarrow> py_error + field list" where
  "pack_i v = (if - (2 ^ 31) \<le> v \<and> v < 2 ^ 31 then Inr [I32 v] else Inl StructError)"

text \<open>A loop of \<^verbatim>\<open>f.write(struct.pack(...))\<close> over a list: the packed values in order.\<close>

fun pack_all :: "('a \<Rightarrow> py_error + field list) \<Rightarrow> 'a list \<Rightarrow> py_error + field list" where
  "pack_all f [] = Inr []"
| "pack_all f (x # xs) =
     bind_res (f x) (\<lambda>a. bind_res (pack_all f xs) (\<lambda>b. Inr (a @ b)))"

datatype file_name = Atlas_raw nat | Octree_idx | Scene_splat | Metadata_json

datatype content = Binary "field list" | Json "(string \<times> int) list"

text \<open>Lines 349-352: a layer row by row, four bytes per pixel.\<close>

definition atlas_bytes :: "int \<Rightarrow> atlas_image \<Rightarrow> field list" where
  "atlas_bytes n a =
     concat (map (\<lambda>y. concat (map (\<lambda>x.
        case a (nat y, nat x) of (r, g, b, al) \<Rightarrow> [U8 r, U8 g, U8 b, U8 al])
       (py_range n))) (py_range n))"

text \<open>Lines 365-379: one node of \<^verbatim>\<open>octree.idx\<close>, and lines 361-362 before the nodes.\<close>

fun bounds_fields :: "bounds \<Rightarrow> field list" where
  "bounds_fields (a, b, c, d, e, f) = [F32 a, F32 b, F32 c, F32 d, F32 e, F32 f]"

fun node_fields :: "flat_node \<Rightarrow> py_error + field list" where
  "node_fields (FLeaf cnt idxs b) =
     bind_res (pack_I 1) (\<lambda>flag.
     bind_res (pack_I (int cnt)) (\<lambda>count.
     bind_res (pack_all (\<lambda>idx. pack_I (int idx)) idxs) (\<lambda>slots.
       Inr (flag @ count @ slots @ bounds_fields b))))"
| "node_fields (FInternal offs b) =
     bind_res (pack_I 0) (\<lambda>flag.
     bind_res (pack_I 0) (\<lambda>padding.
     bind_res (pack_all pack_i offs) (\<lambda>slots.
       Inr (flag @ padding @ slots @ bounds_fields b))))"

definition octree_file :: "config \<Rightarrow> flat_node list \<Rightarrow> py_error + field list" where
  "octree_file cfg octree =
     bind_res (pack_I (int (length octree))) (\<lambda>node_count.
     bind_res (pack_I (max_octree_depth cfg)) (\<lambda>max_depth.
     bind_res (pack_all node_fields octree) (\<lambda>nodes.
       Inr (node_count @ max_depth @ nodes))))"

text \<open>
  Lines 391-408: the record of one splat in \<^verbatim>\<open>scene.splat\<close>, part by part. The atlas keys
  are read with \<^verbatim>\<open>splat.get(key, 0)\<close>.
\<close>

definition position_fields :: "splat \<Rightarrow> field list" where
  "position_fields s = (case pos s of (x, y, z) \<Rightarrow> [F32 x, F32 y, F32 z])"

definition covariance_fields :: "splat \<Rightarrow> field list" where
  "covariance_fields s =
     (case covariance s of (xx, xy, xz, yy, yz, zz) \<Rightarrow>
        [F32 xx, F32 xy, F32 xz, F32 yy, F32 yz, F32 zz])"

definition color_alpha_fields :: "splat \<Rightarrow> field list" where
  "color_alpha_fields s = (case color s of (r, g, b) \<Rightarrow> [F32 r, F32 g, F32 b, F32 (alpha s)])"

definition atlas_fields :: "splat \<Rightarrow> field list" where
  "atlas_fields s =
     (case atlas s of
        None \<Rightarrow> [F32 0, F32 0, F32 0, F32 0]
      | Some a \<Rightarrow> [F32 (atlas_u a), F32 (atlas_v a), F32 (splat_atlas_size a),
                  F32 (real_of_int (atlas_layer a))])"

definition splat_record :: "splat \<Rightarrow> field list" where
  "splat_record s =
     position_fields s @ [F32 0] @ covariance_fields s @ [F32 0, F32 0] @
     color_alpha_fields s @ atlas_fields s"

definition splat_file :: "splat list \<Rightarrow> py_error + field list" where
  "splat_file ss =
     bind_res (pack_I (int (length ss))) (\<lambda>count.
     bind_res (pack_I 0x53504C54) (\<lambda>magic.
       Inr (count @ magic @ concat (map splat_record ss))))"

text \<open>Lines 413-419: \<^verbatim>\<open>metadata.json\<close>.\<close>

definition metadata :: "config \<Rightarrow> splat list \<Rightarrow> flat_node list option \<Rightarrow> (string \<times> int) list" where
  "metadata cfg ss octree =
     [(''splat_count'', int (length ss)),
      (''atlas_size'', atlas_size cfg),
      (''atlas_layers'', atlas_layers cfg),
      (''octree_nodes'', (case octree of None \<Rightarrow> 0 | Some a \<Rightarrow> if a \<noteq> [] then int (length a) else 0)),
      (''octree_depth'', max_octree_depth cfg)]"

text \<open>
  \<^verbatim>\<open>export_assets\<close>: the files in the order in which they are written. An exception ends
  the run with the error. \<^verbatim>\<open>if octree:\<close> is false for \<^verbatim>\<open>None\<close> and for an empty list.
\<close>

definition octree_files :: "config \<Rightarrow> flat_node list option \<Rightarrow> py_error + (file_name \<times> content) list" where
  "octree_files cfg octree =
     (case octree of
        None \<Rightarrow> Inr []
      | Some a \<Rightarrow>
          if a \<noteq> [] then bind_res (octree_file cfg a) (\<lambda>c. Inr [(Octree_idx, Binary c)])
          else Inr [])"

definition export_assets :: "config \<Rightarrow> splat list \<Rightarrow> py_error + (file_name \<times> content) list" where
  "export_assets cfg ss =
     bind_res (generate_texture_atlas cfg ss) (\<lambda>st.
     bind_res (build_octree_index cfg (self_splats st)) (\<lambda>octree.
     bind_res (octree_files cfg octree) (\<lambda>octree_part.
     bind_res (splat_file (self_splats st)) (\<lambda>splats_part.
       Inr (map (\<lambda>(i, a). (Atlas_raw i, Binary (atlas_bytes (atlas_size cfg) a)))
              (enumerate 0 (atlases st)) @
            octree_part @
            [(Scene_splat, Binary splats_part),
             (Metadata_json, Json (metadata cfg (self_splats st) octree))])))))"

section \<open>Specification predicates for the covariance\<close>


section \<open>Specification predicates for the octree\<close>

text \<open>A tree as the builder makes it: at most 8 indices in a leaf, exactly 8 child slots.\<close>

fun wf_tree :: "octree \<Rightarrow> bool" where
  "wf_tree (Leaf idxs b) = (length idxs \<le> 8)"
| "wf_tree (Internal children b) =
     (length children = 8 \<and> (\<forall>c \<in> set children. case c of None \<Rightarrow> True | Some t \<Rightarrow> wf_tree t))"

text \<open>
  \<open>node_ok p n node\<close>: what the flattened array of \<open>n\<close> nodes promises of its node at
  index \<open>p\<close>. A leaf counts at most 8 splats and pads its 8 slots with zeros; every child
  slot of an internal node is \<open>-1\<close> or an index of the array behind \<open>p\<close>.
\<close>

fun node_ok :: "nat \<Rightarrow> nat \<Rightarrow> flat_node \<Rightarrow> bool" where
  "node_ok p n (FLeaf cnt idxs b) =
     (cnt \<le> 8 \<and> length idxs = 8 \<and> drop cnt idxs = replicate (8 - cnt) 0)"
| "node_ok p n (FInternal offs b) =
     (length offs = 8 \<and> (\<forall>off \<in> set offs. off = - 1 \<or> (int p < off \<and> off < int n)))"

text \<open>The same while the loop over the children has patched only the first \<open>i\<close> slots.\<close>

fun partial_ok :: "nat \<Rightarrow> nat \<Rightarrow> nat \<Rightarrow> flat_node \<Rightarrow> bool" where
  "partial_ok i p n (FLeaf cnt idxs b) = False"
| "partial_ok i p n (FInternal offs b) =
     (length offs = 8 \<and> (\<forall>j < i. offs ! j = - 1 \<or> (int p < offs ! j \<and> offs ! j < int n)))"

definition tail_ok :: "nat \<Rightarrow> flat_node list \<Rightarrow> bool" where
  "tail_ok k array = (\<forall>p. k \<le> p \<and> p < length array \<longrightarrow> node_ok p (length array) (array ! p))"

text \<open>The axis-aligned bounding box of a list of positions, and a cube of side \<open>s\<close>.\<close>

definition bbox_min :: "vec3 list \<Rightarrow> vec3" where
  "bbox_min ps = (Min (fst ` set ps), Min ((fst \<circ> snd) ` set ps), Min ((snd \<circ> snd) ` set ps))"

definition bbox_max :: "vec3 list \<Rightarrow> vec3" where
  "bbox_max ps = (Max (fst ` set ps), Max ((fst \<circ> snd) ` set ps), Max ((snd \<circ> snd) ` set ps))"

definition cube :: "real \<Rightarrow> vec3" where
  "cube s = (s, s, s)"



section \<open>Specification predicates for the packer\<close>

text \<open>What ingestion stored in a splat: everything but the atlas assignment.\<close>

definition ingested :: "splat \<Rightarrow> splat" where
  "ingested s = s\<lparr>atlas := None\<rparr>"

text \<open>\<open>placed st r st'\<close>: the step has rendered into one layer, stored an assignment in the
  splat at position \<open>r\<close> and counted it.\<close>

definition placed :: "pack_state \<Rightarrow> nat \<Rightarrow> pack_state \<Rightarrow> bool" where
  "placed st r st' =
     (\<exists>l a' asg. st' = st\<lparr>atlases := (atlases st)[l := a'],
        self_splats := (self_splats st)[r := (self_splats st ! r)\<lparr>atlas := Some asg\<rparr>],
        packed_count := packed_count st + 1\<rparr>)"

text \<open>The range of colour and alpha in the data model.\<close>

definition unit_range :: "real \<Rightarrow> bool" where
  "unit_range c = (0 \<le> c \<and> c \<le> 1)"

definition color_ok :: "splat \<Rightarrow> bool" where
  "color_ok s =
     ((case color s of (c0, c1, c2) \<Rightarrow> unit_range c0 \<and> unit_range c1 \<and> unit_range c2) \<and>
      unit_range (alpha s))"


section \<open>Specification predicates for the exported files\<close>

text \<open>A position within bounds as a node stores them.\<close>

fun in_box :: "vec3 \<Rightarrow> bounds \<Rightarrow> bool" where
  "in_box p (a, b, c, d, e, f) = in_octant p (a, b, c) (d, e, f)"

text \<open>
  \<open>P i b\<close> holds of every index \<open>i\<close> of every leaf with bounds \<open>b\<close>: in the tree, and in
  the flattened array (there only the first \<open>splat_count\<close> slots count, the rest is padding).
\<close>

fun leaves_sat :: "(nat \<Rightarrow> bounds \<Rightarrow> bool) \<Rightarrow> octree \<Rightarrow> bool" where
  "leaves_sat P (Leaf idxs b) = (\<forall>i \<in> set idxs. P i b)"
| "leaves_sat P (Internal children b) =
     (\<forall>c \<in> set children. case c of None \<Rightarrow> True | Some t \<Rightarrow> leaves_sat P t)"

fun flat_leaf_sat :: "(nat \<Rightarrow> bounds \<Rightarrow> bool) \<Rightarrow> flat_node \<Rightarrow> bool" where
  "flat_leaf_sat P (FLeaf cnt idxs b) = (\<forall>k < cnt. P (idxs ! k) b)"
| "flat_leaf_sat P (FInternal offs b) = True"

text \<open>
  The \<open>i\<close>-th record of \<^verbatim>\<open>scene.splat\<close> as a reader finds it: 20 packed values behind the
  two values of the header.
\<close>

definition scene_record :: "field list \<Rightarrow> nat \<Rightarrow> field list" where
  "scene_record c i = take 20 (drop (2 + 20 * i) c)"


section \<open>Sample data\<close>

text \<open>A splat as ingestion builds it from a vertex at \<open>(x, y, z)\<close> with scale \<open>s\<close> on every axis.\<close>

definition sample_splat :: "vec3 \<Rightarrow> real \<Rightarrow> splat" where
  "sample_splat p s =
     \<lparr>pos = p, color = (1, 1 / 2, 0), alpha = 1,
      covariance = (s * s, 0, 0, s * s, 0, s * s), scale = (s, s, s),
      rotation = (0, 0, 0, 1), atlas = None\<rparr>"

definition two_splats :: "splat list" where
  "two_splats = [sample_splat (0, 0, 0) (1 / 10), sample_splat (1, 0, 0) (1 / 2)]"

section \<open>Properties of the Covariance Builder\<close>

lemma normalize_quat_total: "\<exists>q'. normalize_quat q = Inr q'"
  by (cases q) (simp add: Let_def bind_res_def fdiv_def)











lemma quat_norm_zero:
  "quat_norm (qx, qy, qz, qw) = 0 \<Longrightarrow> qx = 0 \<and> qy = 0 \<and> qz = 0 \<and> qw = 0"
proof -
  assume "quat_norm (qx, qy, qz, qw) = 0"
  then have "qx * qx + qy * qy + qz * qz + qw * qw = 0"
    by simp
  moreover have "0 \<le> qx * qx" "0 \<le> qy * qy" "0 \<le> qz * qz" "0 \<le> qw * qw"
    by simp_all
  ultimately have "qx * qx = 0 \<and> qy * qy = 0 \<and> qz * qz = 0 \<and> qw * qw = 0"
    by linarith
  then show ?thesis by simp
qed

text \<open>
  Claim C5. For every scale vector, a quaternion of norm zero goes through the builder
  without a division (the result is a value, not \<open>ZeroDivisionError\<close>), and the six values
  are exactly those of the identity quaternion \<open>(0, 0, 0, 1)\<close> with the same scale:
  the squares of the scales on the diagonal and zeros elsewhere.
\<close>

theorem zero_norm_quaternion_is_identity:
  assumes "quat_norm rot = 0"
  shows "compute_covariance_from_scale_rot (sx, sy, sz) rot =
           Inr (sx * sx, 0, 0, sy * sy, 0, sz * sz) \<and>
         compute_covariance_from_scale_rot (sx, sy, sz) (0, 0, 0, 1) =
           compute_covariance_from_scale_rot (sx, sy, sz) rot"
proof -
  obtain qx qy qz qw where r: "rot = (qx, qy, qz, qw)" by (cases rot)
  with assms have z: "rot = (0, 0, 0, 0)" using quat_norm_zero by blast
  show ?thesis
    by (simp add: z compute_covariance_from_scale_rot_def bind_res_def scaled_rotation_def fdiv_def)
qed

theorem zero_norm_quaternion_is_identity_witness:
  "quat_norm (0, 0, 0, 0) = 0 \<and>
   compute_covariance_from_scale_rot (1, 2, 3) (0, 0, 0, 0) = Inr (1, 0, 0, 4, 0, 9) \<and>
   compute_covariance_from_scale_rot (1, 2, 3) (0, 0, 0, 1) = Inr (1, 0, 0, 4, 0, 9)"
  using zero_norm_quaternion_is_identity [of "(0, 0, 0, 0)" 1 2 3] by simp

section \<open>Properties of the Octree Builder\<close>

lemma node_ok_mono: "node_ok p n x \<Longrightarrow> n \<le> n' \<Longrightarrow> node_ok p n' x"
  by (cases x) force+

lemma partial_ok_mono: "partial_ok i p n x \<Longrightarrow> n \<le> n' \<Longrightarrow> partial_ok i p n' x"
  by (cases x) force+

lemma partial_ok_full: "partial_ok 8 p n x \<Longrightarrow> node_ok p n x"
  by (cases x) (auto simp: in_set_conv_nth)

lemma set_child_offset_ok:
  assumes "node_index < length array" "partial_ok i node_index n (array ! node_index)" "i < 8"
    "v = - 1 \<or> (int node_index < v \<and> v < int n)"
  shows "\<exists>array'. set_child_offset array node_index i v = Inr array' \<and>
           length array' = length array \<and>
           partial_ok (i + 1) node_index n (array' ! node_index) \<and>
           (\<forall>p. p \<noteq> node_index \<longrightarrow> array' ! p = array ! p)"
proof (cases "array ! node_index")
  case (FLeaf cnt idxs b)
  then show ?thesis using assms by simp
next
  case (FInternal offs b)
  then show ?thesis using assms
    by (auto simp: set_child_offset_def nth_list_update less_Suc_eq)
qed


lemma flatten_invariant:
  "wf_tree node \<Longrightarrow>
     \<exists>array'. flatten_node node array = Inr (int (length array), array') \<and>
       length array < length array' \<and> take (length array) array' = array \<and>
       tail_ok (length array) array'"
  "node_index < length array \<Longrightarrow> partial_ok i node_index (length array) (array ! node_index) \<Longrightarrow>
   tail_ok (Suc node_index) array \<Longrightarrow> i + length children = 8 \<Longrightarrow>
   \<forall>c \<in> set children. (case c of None \<Rightarrow> True | Some t \<Rightarrow> wf_tree t) \<Longrightarrow>
     \<exists>array'. flatten_children node_index i children array = Inr array' \<and>
       length array \<le> length array' \<and> take node_index array' = take node_index array \<and>
       tail_ok node_index array'"
proof (induction node array and node_index i children array
    rule: flatten_node_flatten_children.induct)
  case (1 idxs b array)
  then show ?case
    by (auto simp: tail_ok_def nth_append)
next
  case (2 children b array)
  let ?a1 = "array @ [FInternal (replicate 8 0) b]"
  have "\<exists>array'. flatten_children (length array) 0 children ?a1 = Inr array' \<and>
       length ?a1 \<le> length array' \<and> take (length array) array' = take (length array) ?a1 \<and>
       tail_ok (length array) array'"
    using 2 by (intro "2.IH") (auto simp: tail_ok_def)
  then show ?case
    by (auto simp: bind_res_def)
next
  case (3 node_index i array)
  then have "i = 8" by simp
  with 3 have n: "node_ok node_index (length array) (array ! node_index)"
    using partial_ok_full [of node_index "length array" "array ! node_index"] by simp
  have "tail_ok node_index array"
    unfolding tail_ok_def
  proof (intro allI impI)
    fix p assume p: "node_index \<le> p \<and> p < length array"
    show "node_ok p (length array) (array ! p)"
    proof (cases "p = node_index")
      case True
      then show ?thesis using n by simp
    next
      case False
      then have "Suc node_index \<le> p" using p by simp
      then show ?thesis using "3.prems"(3) p by (simp add: tail_ok_def)
    qed
  qed
  then show ?case by simp
next
  case (4 node_index i rest array)
  from 4 have i: "i < 8" by simp
  obtain a1 where a1: "set_child_offset array node_index i (- 1) = Inr a1"
    "length a1 = length array" "partial_ok (i + 1) node_index (length array) (a1 ! node_index)"
    "\<forall>p. p \<noteq> node_index \<longrightarrow> a1 ! p = array ! p"
    using set_child_offset_ok [OF "4.prems"(1) "4.prems"(2) i, of "- 1"] by auto
  have t: "tail_ok (Suc node_index) a1"
    using "4.prems"(3) a1 by (auto simp: tail_ok_def)
  have tk: "take node_index a1 = take node_index array"
    using a1 "4.prems"(1) by (auto simp: list_eq_iff_nth_eq)
  have "\<exists>array'. flatten_children node_index (i + 1) rest a1 = Inr array' \<and>
       length a1 \<le> length array' \<and> take node_index array' = take node_index a1 \<and>
       tail_ok node_index array'"
    using 4 a1 t by (intro "4.IH") auto
  then show ?case
    using a1 tk by (auto simp: bind_res_def)
next
  case (5 node_index i child rest array)
  from 5 have i: "i < 8" by simp
  have wfc: "wf_tree child" using "5.prems"(5) by simp
  obtain a0 where a0: "flatten_node child array = Inr (int (length array), a0)"
    "length array < length a0" "take (length array) a0 = array" "tail_ok (length array) a0"
    using "5.IH"(1) [OF wfc] by auto
  have same: "\<forall>p < length array. a0 ! p = array ! p"
    using a0(3) by (metis nth_take)
  have ni0: "node_index < length a0" using "5.prems"(1) a0(2) by simp
  have po0: "partial_ok i node_index (length a0) (a0 ! node_index)"
    using "5.prems"(1,2) same a0(2) partial_ok_mono [of i node_index "length array" "array ! node_index" "length a0"]
    by simp
  have v: "int (length array) = - 1 \<or> (int node_index < int (length array) \<and> int (length array) < int (length a0))"
    using "5.prems"(1) a0(2) by simp
  obtain a1 where a1: "set_child_offset a0 node_index i (int (length array)) = Inr a1"
    "length a1 = length a0" "partial_ok (i + 1) node_index (length a0) (a1 ! node_index)"
    "\<forall>p. p \<noteq> node_index \<longrightarrow> a1 ! p = a0 ! p"
    using set_child_offset_ok [OF ni0 po0 i v] by auto
  have t: "tail_ok (Suc node_index) a1"
    unfolding tail_ok_def
  proof (intro allI impI)
    fix p assume p: "Suc node_index \<le> p \<and> p < length a1"
    show "node_ok p (length a1) (a1 ! p)"
    proof (cases "p < length array")
      case True
      then have "node_ok p (length array) (array ! p)"
        using "5.prems"(3) p by (simp add: tail_ok_def)
      then show ?thesis
        using True same a1 p a0(2) node_ok_mono [of p "length array" "array ! p" "length a0"] by simp
    next
      case False
      then show ?thesis
        using a0(4) a1 p by (simp add: tail_ok_def)
    qed
  qed
  have tk: "take node_index a1 = take node_index array"
    using a1 "5.prems"(1) a0(2) same by (auto simp: list_eq_iff_nth_eq)
  have "\<exists>array'. flatten_children node_index (i + 1) rest a1 = Inr array' \<and>
       length a1 \<le> length array' \<and> take node_index array' = take node_index a1 \<and>
       tail_ok node_index array'"
    using "5.prems" a1 t ni0 a0 by (intro "5.IH"(2)) auto
  then show ?case
    using a0 a1 tk by (auto simp: bind_res_def)
qed

lemma root_bounds_total: "positions \<noteq> [] \<Longrightarrow> \<exists>lo hi. root_bounds positions = Inr (lo, hi)"
proof -
  assume "positions \<noteq> []"
  then have "\<exists>r. root_bounds positions = Inr r"
    by (cases positions) (simp_all add: root_bounds_def bind_res_def Let_def del: split_paired_Ex)
  then show ?thesis by auto
qed

lemma build_wf: "wf_tree (build_octree_recursive positions max_depth splat_indices min_pos max_pos depth)"
proof (induction positions max_depth splat_indices min_pos max_pos depth
    rule: build_octree_recursive.induct)
  case (1 positions max_depth splat_indices min_pos max_pos depth)
  show ?case
  proof (cases "depth \<ge> max_depth \<or> length splat_indices \<le> 8")
    case True
    then show ?thesis by (subst build_octree_recursive.simps) auto
  next
    case False
    then show ?thesis
      using 1 by (subst build_octree_recursive.simps) auto
  qed
qed


lemma build_octree_index_ok:
  "splats \<noteq> [] \<Longrightarrow>
     \<exists>a. build_octree_index cfg splats = Inr (Some a) \<and> a \<noteq> [] \<and>
       (\<forall>p < length a. node_ok p (length a) (a ! p))"
proof -
  assume ne: "splats \<noteq> []"
  then obtain lo hi where rb: "root_bounds (map pos splats) = Inr (lo, hi)"
    using root_bounds_total [of "map pos splats"] by auto
  let ?root = "build_octree_recursive (map pos splats) (max_octree_depth cfg) [0..<length splats] lo hi 0"
  obtain a where a: "flatten_node ?root [] = Inr (int (length ([]::flat_node list)), a)"
    "length ([]::flat_node list) < length a" "tail_ok (length ([]::flat_node list)) a"
    using flatten_invariant(1) [OF build_wf, of "map pos splats" "max_octree_depth cfg" "[0..<length splats]" lo hi 0 "[]"]
    by auto
  have "build_octree_index cfg splats = Inr (Some a)"
    using ne rb a(1) by (simp add: build_octree_index_def bind_res_def flatten_octree_def)
  then show ?thesis
    using a(2,3) by (auto simp: tail_ok_def)
qed

text \<open>
  Claim C6. For every non-empty splat list the octree builder returns a flattened array
  with at least one node in which every leaf counts at most 8 splats and pads its 8 index
  slots with zeros behind the count, and every internal node has 8 child slots, each \<open>-1\<close>
  or an index of the same array that is greater than the node's own index (pre-order).
\<close>

theorem flattened_octree_invariant:
  "splats \<noteq> [] \<Longrightarrow>
     \<exists>a. build_octree_index cfg splats = Inr (Some a) \<and> a \<noteq> [] \<and>
       (\<forall>p < length a. node_ok p (length a) (a ! p))"
  by (rule build_octree_index_ok)

theorem flattened_octree_invariant_witness:
  "map (\<lambda>i. sample_splat (real i, 0, 0) (1 / 10)) [0..<9] \<noteq> [] \<and>
   (\<exists>a. build_octree_index default_config (map (\<lambda>i. sample_splat (real i, 0, 0) (1 / 10)) [0..<9])
          = Inr (Some a) \<and> a \<noteq> [] \<and> (\<forall>p < length a. node_ok p (length a) (a ! p)))"
  using flattened_octree_invariant
    [of "map (\<lambda>i. sample_splat (real i, 0, 0) (1 / 10)) [0..<9]" default_config]
  by simp

lemma fold_vmin: "fold (\<lambda>q acc. vmin acc q) ps p =
   (Min (fst ` set (p # ps)), Min ((fst \<circ> snd) ` set (p # ps)), Min ((snd \<circ> snd) ` set (p # ps)))"
proof (induction ps arbitrary: p)
  case Nil
  then show ?case by (cases p) simp
next
  case (Cons q ps)
  obtain a b c where p: "p = (a, b, c)" by (cases p)
  obtain x y z where q: "q = (x, y, z)" by (cases q)
  have ins: "\<And>(u::real) v S. finite S \<Longrightarrow> Min (insert (min u v) S) = min u (Min (insert v S))"
    by (metis Min_insert Min_singleton min.assoc)
  show ?case
    by (simp add: Cons.IH p q ins) 
qed

lemma fold_vmax: "fold (\<lambda>q acc. vmax acc q) ps p =
   (Max (fst ` set (p # ps)), Max ((fst \<circ> snd) ` set (p # ps)), Max ((snd \<circ> snd) ` set (p # ps)))"
proof (induction ps arbitrary: p)
  case Nil
  then show ?case by (cases p) simp
next
  case (Cons q ps)
  obtain a b c where p: "p = (a, b, c)" by (cases p)
  obtain x y z where q: "q = (x, y, z)" by (cases q)
  have ins: "\<And>(u::real) v S. finite S \<Longrightarrow> Max (insert (max u v) S) = max u (Max (insert v S))"
    by (metis Max_insert Max_singleton max.assoc)
  show ?case
    by (simp add: Cons.IH p q ins) 
qed

lemma np_min_axis0_bbox: "positions \<noteq> [] \<Longrightarrow> np_min_axis0 positions = Inr (bbox_min positions)"
  by (cases positions) (simp_all add: fold_vmin bbox_min_def)

lemma np_max_axis0_bbox: "positions \<noteq> [] \<Longrightarrow> np_max_axis0 positions = Inr (bbox_max positions)"
  by (cases positions) (simp_all add: fold_vmax bbox_max_def)

lemma root_bounds_eq:
  "positions \<noteq> [] \<Longrightarrow> root_bounds positions =
     Inr (vshift (vhalf (vadd (bbox_min positions) (bbox_max positions)))
            (- (max3 (vsub (bbox_max positions) (bbox_min positions)) * (11 / 10) / 2)),
          vshift (vhalf (vadd (bbox_min positions) (bbox_max positions)))
            (max3 (vsub (bbox_max positions) (bbox_min positions)) * (11 / 10) / 2))"
  by (simp add: root_bounds_def np_min_axis0_bbox np_max_axis0_bbox bind_res_def Let_def)

text \<open>
  Claim C7, as amended. For every non-empty position list the root box is a cube around the
  centre of the axis-aligned bounding box of the positions: on every axis its extent is
  1.1 times the largest of the three min-to-max extents, and the centre of the box is the
  centre of the bounding box.
\<close>

theorem root_bounds_cube:
  assumes "positions \<noteq> []"
  shows "\<exists>lo hi. root_bounds positions = Inr (lo, hi) \<and>
           vsub hi lo = cube (11 / 10 * max3 (vsub (bbox_max positions) (bbox_min positions))) \<and>
           vhalf (vadd lo hi) = vhalf (vadd (bbox_min positions) (bbox_max positions))"
proof -
  obtain a b c where mn: "bbox_min positions = (a, b, c)" by (cases "bbox_min positions")
  obtain d e f where mx: "bbox_max positions = (d, e, f)" by (cases "bbox_max positions")
  show ?thesis
    unfolding root_bounds_eq [OF assms] mn mx by (simp add: cube_def)
qed

theorem root_bounds_cube_witness:
  "[(0, 0, 0), (1, 2, 4)] \<noteq> ([] :: vec3 list) \<and>
   (\<exists>lo hi. root_bounds [(0, 0, 0), (1, 2, 4)] = Inr (lo, hi) \<and>
       vsub hi lo = cube (22 / 5) \<and> vhalf (vadd lo hi) = (1 / 2, 1, 2))"
  using root_bounds_cube [of "[(0, 0, 0), (1, 2, 4)]"]
  by (simp add: bbox_min_def bbox_max_def)

text \<open>
  The claim as stated fails: for the positions \<open>(0, 0, 0)\<close> and \<open>(1, 2, 4)\<close> the x extent
  of the bounding box is 1, and the x extent of the root box is 4.4, not 1.1.
\<close>

theorem root_bounds_per_axis_counterexample:
  "root_bounds [(0, 0, 0), (1, 2, 4)] = Inr ((- 17 / 10, - 6 / 5, - 1 / 5), (27 / 10, 16 / 5, 21 / 5)) \<and>
   bbox_min [(0, 0, 0), (1, 2, 4)] = (0, 0, 0) \<and> bbox_max [(0, 0, 0), (1, 2, 4)] = (1, 2, 4) \<and>
   (27 / 10 - (- 17 / 10) :: real) \<noteq> 11 / 10 * (1 - 0)"
  by (simp add: root_bounds_def bind_res_def bbox_min_def bbox_max_def)


















section \<open>Properties of the Atlas Packer\<close>

lemma bind_res_Inr_iff: "bind_res m f = Inr y \<longleftrightarrow> (\<exists>x. m = Inr x \<and> f x = Inr y)"
  by (cases m) (simp_all add: bind_res_def)

lemma bind_res_Inr [simp]: "bind_res (Inr x) f = f x"
  by (simp add: bind_res_def)

lemma bind_res_Inl [simp]: "bind_res (Inl e) f = Inl e"
  by (simp add: bind_res_def)

lemma for_each_invariant:
  assumes "for_each xs f s = Inr s'" and "I s"
    and "\<And>x t t'. x \<in> set xs \<Longrightarrow> I t \<Longrightarrow> f x t = Inr t' \<Longrightarrow> I t'"
  shows "I s'"
  using assms
proof (induction xs arbitrary: s)
  case Nil
  then show ?case by simp
next
  case (Cons x xs)
  from Cons.prems(1) obtain t where t: "f x s = Inr t" "for_each xs f t = Inr s'"
    by (auto simp: bind_res_Inr_iff)
  have "I t" using Cons.prems(3) [of x s t] Cons.prems(2) t(1) by simp
  moreover have "\<And>y u u'. y \<in> set xs \<Longrightarrow> I u \<Longrightarrow> f y u = Inr u' \<Longrightarrow> I u'"
    by (meson Cons.prems(3) list.set_intros(2))
  ultimately show ?case using Cons.IH [OF t(2)] by blast
qed

lemma for_each_total:
  assumes "I s" and "\<And>x t. x \<in> set xs \<Longrightarrow> I t \<Longrightarrow> \<exists>t'. f x t = Inr t' \<and> I t'"
  shows "\<exists>s'. for_each xs f s = Inr s' \<and> I s'"
  using assms
proof (induction xs arbitrary: s)
  case Nil
  then show ?case by simp
next
  case (Cons x xs)
  obtain t where t: "f x s = Inr t" "I t"
    using Cons.prems by (meson list.set_intros(1))
  show ?case using Cons.IH [OF t(2)] Cons.prems(2) t(1) by simp
qed

lemma for_each_count:
  assumes "for_each xs f s = Inr s'"
    and "\<And>x t t'. x \<in> set xs \<Longrightarrow> f x t = Inr t' \<Longrightarrow> c t' = c t + (1::int)"
  shows "c s' = c s + int (length xs)"
  using assms
proof (induction xs arbitrary: s)
  case Nil
  then show ?case by simp
next
  case (Cons x xs)
  from Cons.prems(1) obtain t where t: "f x s = Inr t" "for_each xs f t = Inr s'"
    by (auto simp: bind_res_Inr_iff)
  have "c t = c s + 1" using Cons.prems(2) [of x s t] t(1) by simp
  moreover have "\<And>y u u'. y \<in> set xs \<Longrightarrow> f y u = Inr u' \<Longrightarrow> c u' = c u + 1"
    by (meson Cons.prems(2) list.set_intros(2))
  ultimately show ?case using Cons.IH [OF t(2)] by simp
qed

lemma create_loop_ok:
  "for_each xs (\<lambda>layer as. Inr (as @ [z])) as0 = Inr (as0 @ replicate (length xs) z)"
  by (induction xs arbitrary: as0) (simp_all add: replicate_app_Cons_same)

lemma create_loop:
  "for_each xs (\<lambda>layer as. bind_res (np_zeros n) (\<lambda>a. Inr (as @ [a]))) as0 =
     (if xs = [] then Inr as0
      else if n < 0 then Inl ValueError
      else Inr (as0 @ replicate (length xs) (\<lambda>yx. (0, 0, 0, 0))))"
proof (cases "n < 0")
  case True
  then show ?thesis by (cases xs) (simp_all add: np_zeros_def)
next
  case False
  then have "np_zeros n = Inr (\<lambda>yx. (0, 0, 0, 0))" by (simp add: np_zeros_def)
  then show ?thesis using False by (simp add: create_loop_ok)
qed

lemma length_py_range [simp]: "length (py_range n) = nat n"
  by (simp add: py_range_def)

lemma py_range_empty [simp]: "(py_range n = []) = (n \<le> 0)"
  by (auto simp: py_range_def)

lemma set_py_range [simp]: "set (py_range n) = {0..<n}"
  by (auto simp: py_range_def)

lemma create_atlases_eq:
  "create_atlases cfg =
     (if atlas_layers cfg \<le> 0 then Inr []
      else if atlas_size cfg < 0 then Inl ValueError
      else Inr (replicate (nat (atlas_layers cfg)) (\<lambda>yx. (0, 0, 0, 0))))"
  by (simp add: create_atlases_def create_loop)

lemma splat_size_bounds: "8 \<le> splat_size s" "splat_size s \<le> 64"
  by (simp_all add: splat_size_def)

lemma guard_holds:
  assumes "0 \<le> (A::int)" "0 < t" "A div t \<noteq> 0"
  shows "(k mod (A div t)) * t + t \<le> A"
proof -
  have g: "0 < A div t"
    using assms by (metis div_int_pos_iff less_le order_less_imp_le)
  then have "k mod (A div t) + 1 \<le> A div t"
    using pos_mod_bound [of "A div t" k] by linarith
  then have "(k mod (A div t) + 1) * t \<le> (A div t) * t"
    using assms(2) by (simp add: mult_right_mono)
  also have "\<dots> \<le> A"
    using assms(2) pos_mod_sign [of t A] div_mult_mod_eq [of A t] by linarith
  finally show ?thesis by (simp add: algebra_simps)
qed

lemma pack_splat_cases:
  assumes "pack_splat cfg (i, r) st = Inr st'"
  shows "st' = st \<or> placed st r st'"
  using assms unfolding pack_splat_def Let_def placed_def
  by (auto simp: bind_res_Inr_iff split: if_splits)


lemma placed_keeps:
  assumes "placed t r t'"
  shows "length (self_splats t') = length (self_splats t)"
    and "length (atlases t') = length (atlases t)"
    and "packed_count t' = packed_count t + 1"
    and "map ingested (self_splats t') = map ingested (self_splats t)"
    and "j < length (self_splats t) \<Longrightarrow> atlas (self_splats t ! j) \<noteq> None \<or> j = r \<Longrightarrow>
           atlas (self_splats t' ! j) \<noteq> None"
proof -
  obtain l a' asg where t': "t' = t\<lparr>atlases := (atlases t)[l := a'],
        self_splats := (self_splats t)[r := (self_splats t ! r)\<lparr>atlas := Some asg\<rparr>],
        packed_count := packed_count t + 1\<rparr>"
    using assms unfolding placed_def by blast
  show "length (self_splats t') = length (self_splats t)" by (simp add: t')
  show "length (atlases t') = length (atlases t)" by (simp add: t')
  show "packed_count t' = packed_count t + 1" by (simp add: t')
  show "map ingested (self_splats t') = map ingested (self_splats t)"
    by (cases "r < length (self_splats t)")
       (auto simp: t' list_eq_iff_nth_eq nth_list_update ingested_def)
  show "j < length (self_splats t) \<Longrightarrow> atlas (self_splats t ! j) \<noteq> None \<or> j = r \<Longrightarrow>
           atlas (self_splats t' ! j) \<noteq> None"
    by (cases "r < length (self_splats t)") (auto simp: t' nth_list_update)
qed

lemma pack_splat_keeps:
  assumes "pack_splat cfg (i, r) t = Inr t'"
  shows "length (self_splats t') = length (self_splats t)"
    and "length (atlases t') = length (atlases t)"
    and "map ingested (self_splats t') = map ingested (self_splats t)"
  using pack_splat_cases [OF assms] placed_keeps(1,2,4) [of t r t'] by auto

lemma pack_loop_keeps:
  assumes "for_each xs (pack_splat cfg) s = Inr s'"
  shows "length (self_splats s') = length (self_splats s) \<and>
         length (atlases s') = length (atlases s) \<and>
         map ingested (self_splats s') = map ingested (self_splats s)"
proof (rule for_each_invariant [OF assms, where I = "\<lambda>t. length (self_splats t) = length (self_splats s) \<and>
         length (atlases t) = length (atlases s) \<and>
         map ingested (self_splats t) = map ingested (self_splats s)"])
  show "length (self_splats s) = length (self_splats s) \<and>
         length (atlases s) = length (atlases s) \<and>
         map ingested (self_splats s) = map ingested (self_splats s)" by simp
next
  fix x t t'
  assume "length (self_splats t) = length (self_splats s) \<and>
         length (atlases t) = length (atlases s) \<and>
         map ingested (self_splats t) = map ingested (self_splats s)" "pack_splat cfg x t = Inr t'"
  then show "length (self_splats t') = length (self_splats s) \<and>
         length (atlases t') = length (atlases s) \<and>
         map ingested (self_splats t') = map ingested (self_splats s)"
    using pack_splat_keeps [of cfg "fst x" "snd x" t t'] by simp
qed


lemma set_sorted_refs [simp]: "set (sorted_refs ss) = {0..<length ss}"
  by (simp add: sorted_refs_def)


lemma snd_set_enumerate: "snd ` set (enumerate n xs) = set xs"
  by (metis map_snd_enumerate set_map)

lemma generate_returns:
  assumes "generate_texture_atlas cfg ss = Inr st"
  shows "\<exists>as. create_atlases cfg = Inr as \<and>
           for_each (enumerate 0 (sorted_refs ss)) (pack_splat cfg)
             \<lparr>atlases = as, self_splats = ss, packed_count = 0\<rparr> = Inr st"
  using assms by (simp add: generate_texture_atlas_def bind_res_Inr_iff)




lemma generate_keeps:
  assumes "generate_texture_atlas cfg ss = Inr st"
  shows "length (self_splats st) = length ss \<and> map ingested (self_splats st) = map ingested ss"
proof -
  obtain as where loop: "for_each (enumerate 0 (sorted_refs ss)) (pack_splat cfg)
             \<lparr>atlases = as, self_splats = ss, packed_count = 0\<rparr> = Inr st"
    using generate_returns [OF assms] by blast
  show ?thesis using pack_loop_keeps [OF loop] by simp
qed



text \<open>Only a negative layer size with a negative layer count skips splats, and then all.\<close>

lemma both_negative_skips_all:
  "\<exists>st. generate_texture_atlas \<lparr>atlas_size = - 1, atlas_layers = - 1, max_octree_depth = 8\<rparr>
         [sample_splat (0, 0, 0) (1 / 10)] = Inr st \<and> packed_count st = 0"
  by (simp add: generate_texture_atlas_def create_atlases_def py_range_def bind_res_def sorted_refs_def
      pack_splat_def py_mod_def sample_splat_def upto.simps np_zeros_def splat_size_def py_int_def py_floordiv_def)

lemma to_uint8_py_int:
  assumes "0 \<le> v" "v \<le> 255"
  shows "\<exists>b. to_uint8 (py_int v) = Inr b"
proof -
  have "0 \<le> \<lfloor>v\<rfloor>" using assms(1) by simp
  moreover have "\<lfloor>v\<rfloor> \<le> 255" using assms(2) by (simp add: floor_le_iff)
  ultimately show ?thesis using assms(1) by (simp add: to_uint8_def py_int_def)
qed

lemma to_uint8_channel: "unit_range c \<Longrightarrow> \<exists>b. to_uint8 (py_int (c * 255)) = Inr b"
  by (rule to_uint8_py_int) (simp_all add: unit_range_def)

lemma to_uint8_alpha:
  assumes "unit_range al" "e \<le> 0"
  shows "\<exists>b. to_uint8 (py_int (al * exp e * 255)) = Inr b"
proof (rule to_uint8_py_int)
  have w: "0 < exp e" "exp e \<le> 1" using assms(2) by simp_all
  show "0 \<le> al * exp e * 255" using assms(1) w by (simp add: unit_range_def)
  have "al * exp e \<le> 1 * 1"
    using assms(1) w by (intro mult_mono) (simp_all add: unit_range_def)
  then show "al * exp e * 255 \<le> 255" by simp
qed

lemma atlas_store_total:
  assumes "0 \<le> y" "y < n" "0 \<le> x" "x < n"
    and "\<exists>b. to_uint8 r = Inr b" "\<exists>b. to_uint8 g = Inr b" "\<exists>b. to_uint8 bl = Inr b"
    and "\<exists>b. to_uint8 al = Inr b"
  shows "\<exists>a'. atlas_store n a y x (r, g, bl, al) = Inr a'"
  using assms by (auto simp: atlas_store_def py_index_def)

lemma render_pixel_total:
  assumes "color_ok splat" "0 < tile" "0 \<le> x" "0 \<le> y" "0 \<le> dx" "0 \<le> dy"
  shows "\<exists>a'. render_pixel n x y tile splat dy dx a = Inr a'"
proof -
  obtain c0 c1 c2 where c: "color splat = (c0, c1, c2)" by (cases "color splat")
  have ok: "unit_range c0" "unit_range c1" "unit_range c2" "unit_range (alpha splat)"
    using assms(1) by (simp_all add: color_ok_def c)
  let ?d = "2 * (real_of_int tile / 6)\<^sup>2"
  let ?e = "- real_of_int ((dx - tile div 2)\<^sup>2 + (dy - tile div 2)\<^sup>2) / ?d"
  have d: "0 < ?d" using assms(2) by simp
  then have f: "fdiv (- real_of_int ((dx - tile div 2)\<^sup>2 + (dy - tile div 2)\<^sup>2)) ?d = Inr ?e"
    by (simp add: fdiv_def)
  have "0 \<le> real_of_int ((dx - tile div 2)\<^sup>2 + (dy - tile div 2)\<^sup>2)" by simp
  then have e: "?e \<le> 0" using d by (simp add: divide_nonpos_pos del: of_int_add of_int_power)
  show ?thesis
  proof (cases "x + dx < n \<and> y + dy < n")
    case True
    have "\<exists>a'. atlas_store n a (y + dy) (x + dx)
            (py_int (c0 * 255), py_int (c1 * 255), py_int (c2 * 255),
             py_int (alpha splat * exp ?e * 255)) = Inr a'"
      using True assms(3-6) ok e
      by (intro atlas_store_total to_uint8_channel to_uint8_alpha) simp_all
    then show ?thesis
      unfolding render_pixel_def Let_def f using True by (simp add: c)
  next
    case False
    then show ?thesis
      unfolding render_pixel_def Let_def f by auto
  qed
qed

lemma for_each_never_raises:
  assumes "\<And>x t. x \<in> set xs \<Longrightarrow> \<exists>t'. f x t = Inr t'"
  shows "\<exists>s'. for_each xs f s = Inr s'"
  using for_each_total [of "\<lambda>t. True" s xs f] assms by simp

lemma render_total:
  assumes "color_ok splat" "0 \<le> x" "0 \<le> y"
  shows "\<exists>a'. render_splat_to_atlas n a x y tile splat = Inr a'"
  unfolding render_splat_to_atlas_def
proof (intro for_each_never_raises)
  fix dy dx t
  assume "dy \<in> set (py_range tile)" "dx \<in> set (py_range tile)"
  then show "\<exists>t'. render_pixel n x y tile splat dy dx t = Inr t'"
    using render_pixel_total [OF assms(1) _ assms(2,3), of tile dx dy n t] by simp
qed

lemma ingested_fields:
  assumes "ingested a = ingested b"
  shows "color_ok a = color_ok b" "splat_size a = splat_size b" "pos a = pos b"
proof -
  have "color (ingested a) = color (ingested b)" "alpha (ingested a) = alpha (ingested b)"
    "scale (ingested a) = scale (ingested b)" "pos (ingested a) = pos (ingested b)"
    using assms by simp_all
  then have "color a = color b" "alpha a = alpha b" "scale a = scale b" "pos a = pos b"
    by (simp_all add: ingested_def)
  then show "color_ok a = color_ok b" "splat_size a = splat_size b" "pos a = pos b"
    by (simp_all add: color_ok_def splat_size_def)
qed

lemma pack_splat_total:
  assumes "1 \<le> atlas_layers cfg" and "length (atlases (t :: pack_state)) = nat (atlas_layers cfg)"
    and "color_ok (self_splats t ! r)" and "splat_size (self_splats t ! r) \<le> atlas_size cfg"
  shows "\<exists>t'. pack_splat cfg (i, r) t = Inr t'"
proof -
  let ?s = "self_splats t ! r"
  let ?t = "splat_size ?s"
  let ?A = "atlas_size cfg"
  let ?L = "atlas_layers cfg"
  let ?g = "?A div ?t"
  let ?k = "int i div ?L"
  have t: "0 < ?t" using splat_size_bounds(1) [of ?s] by linarith
  have A: "0 < ?A" using t assms(4) by linarith
  have g: "0 < ?g" using t assms(4) by (simp add: pos_imp_zdiv_pos_iff)
  have guard: "(?k div ?g) mod ?g * ?t + ?t \<le> ?A"
    using guard_holds [of ?A ?t "?k div ?g"] A t g by simp
  have layer: "0 \<le> int i mod ?L" "int i mod ?L < ?L"
    using assms(1) by simp_all
  have idx: "py_index (int (length (atlases t))) (int i mod ?L) = Inr (nat (int i mod ?L))"
    using layer assms(1,2) by (simp add: py_index_def)
  have x: "0 \<le> ?k mod ?g * ?t" "0 \<le> (?k div ?g) mod ?g * ?t"
    using g t by simp_all
  obtain a' where a': "render_splat_to_atlas ?A (atlases t ! nat (int i mod ?L)) (?k mod ?g * ?t)
      ((?k div ?g) mod ?g * ?t) ?t ?s = Inr a'"
    using render_total [OF assms(3) x] by blast
  show ?thesis
    unfolding pack_splat_def Let_def
    using assms(1) A t g guard idx a'
    by (simp add: py_mod_def py_floordiv_def py_truediv_def)
qed

lemma generate_total:
  assumes "1 \<le> atlas_layers cfg" and "0 \<le> atlas_size cfg"
    and "\<forall>s \<in> set ss. splat_size s \<le> atlas_size cfg \<and> color_ok s"
  shows "\<exists>st. generate_texture_atlas cfg ss = Inr st"
proof -
  let ?as = "replicate (nat (atlas_layers cfg)) (\<lambda>yx. (0, 0, 0, 0)) :: atlas_image list"
  let ?I = "\<lambda>t :: pack_state. length (atlases t) = nat (atlas_layers cfg) \<and>
                map ingested (self_splats t) = map ingested ss"
  have c: "create_atlases cfg = Inr ?as"
    using assms(1,2) by (simp add: create_atlases_eq)
  have "\<exists>st. for_each (enumerate 0 (sorted_refs ss)) (pack_splat cfg)
          \<lparr>atlases = ?as, self_splats = ss, packed_count = 0\<rparr> = Inr st \<and> ?I st"
  proof (rule for_each_total [where I = ?I])
    show "?I \<lparr>atlases = ?as, self_splats = ss, packed_count = 0\<rparr>" by simp
  next
    fix x t
    assume x: "x \<in> set (enumerate 0 (sorted_refs ss))" and I: "?I t"
    obtain i r where ir: "x = (i, r)" by (cases x)
    have "r \<in> snd ` set (enumerate 0 (sorted_refs ss))" using x ir by force
    then have r: "r < length ss" by (simp add: snd_set_enumerate)
    have "map ingested (self_splats t) ! r = map ingested ss ! r" using I by simp
    moreover have "length (self_splats t) = length ss" using I by (metis length_map)
    ultimately have "ingested (self_splats t ! r) = ingested (ss ! r)" using r by simp
    then have "color_ok (self_splats t ! r)" "splat_size (self_splats t ! r) \<le> atlas_size cfg"
      using ingested_fields(1,2) [of "self_splats t ! r" "ss ! r"] assms(3) r by simp_all
    then obtain t' where t': "pack_splat cfg (i, r) t = Inr t'"
      using pack_splat_total [OF assms(1)] I by blast
    then show "\<exists>t'. pack_splat cfg x t = Inr t' \<and> ?I t'"
      using pack_splat_keeps(2,3) [OF t'] I by (simp add: ir)
  qed
  then show ?thesis by (auto simp: generate_texture_atlas_def c)
qed






section \<open>Properties of the Asset Exporter\<close>

lemma byte_size_append [simp]: "byte_size (xs @ ys) = byte_size xs + byte_size ys"
  by (simp add: byte_size_def)

lemma byte_size_Cons [simp]: "byte_size (x # xs) = field_size x + byte_size xs"
  by (simp add: byte_size_def)

lemma byte_size_Nil [simp]: "byte_size [] = 0"
  by (simp add: byte_size_def)

lemma part_sizes:
  "byte_size (position_fields s) = 12" "byte_size (covariance_fields s) = 24"
  "byte_size (color_alpha_fields s) = 16" "byte_size (atlas_fields s) = 16"
  by (simp_all add: position_fields_def covariance_fields_def color_alpha_fields_def
      atlas_fields_def split: prod.splits option.splits)

lemma splat_record_size: "byte_size (splat_record s) = 80"
  by (simp add: splat_record_def part_sizes)

lemma splat_record_length: "length (splat_record s) = 20"
  by (simp add: splat_record_def position_fields_def covariance_fields_def color_alpha_fields_def
      atlas_fields_def split: prod.splits option.splits)

lemma records_size: "byte_size (concat (map splat_record ss)) = 80 * length ss"
  by (induction ss) (simp_all add: splat_record_size)

lemma splat_file_eq:
  "splat_file ss = Inr c \<Longrightarrow>
     c = [U32 (int (length ss)), U32 0x53504C54] @ concat (map splat_record ss)"
  by (auto simp: splat_file_def pack_I_def bind_res_Inr_iff split: if_splits)

lemma enumerate_replicate:
  "map (\<lambda>(i, a). g i a) (enumerate 0 (replicate n z)) = map (\<lambda>i. g i z) [0..<n]"
  by (simp add: list_eq_iff_nth_eq nth_enumerate_eq)

lemma generate_empty:
  assumes "0 \<le> atlas_size cfg \<or> atlas_layers cfg \<le> 0"
  shows "generate_texture_atlas cfg [] =
     Inr \<lparr>atlases = replicate (nat (atlas_layers cfg)) (\<lambda>yx. (0, 0, 0, 0)),
          self_splats = [], packed_count = 0\<rparr>"
  using assms by (auto simp: generate_texture_atlas_def create_atlases_eq sorted_refs_def)

text \<open>
  Claim C1, as amended. With an empty splat list \<^verbatim>\<open>export_assets\<close> raises no error (for a
  layer size that is not negative): it writes one zeroed file per atlas layer, no
  \<^verbatim>\<open>octree.idx\<close>, a \<^verbatim>\<open>scene.splat\<close> that holds only the count 0 and the magic constant, and
  a \<^verbatim>\<open>metadata.json\<close> with \<open>splat_count = 0\<close> and \<open>octree_nodes = 0\<close>.
\<close>

theorem empty_export_completes:
  assumes "0 \<le> atlas_size cfg \<or> atlas_layers cfg \<le> 0"
  shows "export_assets cfg [] =
     Inr (map (\<lambda>i. (Atlas_raw i, Binary (atlas_bytes (atlas_size cfg) (\<lambda>yx. (0, 0, 0, 0)))))
            [0..<nat (atlas_layers cfg)] @
          [(Scene_splat, Binary [U32 0, U32 0x53504C54]),
           (Metadata_json, Json [(''splat_count'', 0), (''atlas_size'', atlas_size cfg),
              (''atlas_layers'', atlas_layers cfg), (''octree_nodes'', 0),
              (''octree_depth'', max_octree_depth cfg)])])"
  by (simp add: export_assets_def generate_empty [OF assms] build_octree_index_def octree_files_def
      splat_file_def pack_I_def metadata_def enumerate_replicate)

theorem empty_export_completes_witness:
  "(0 \<le> atlas_size default_config \<or> atlas_layers default_config \<le> 0) \<and>
   (\<exists>files. export_assets default_config [] = Inr files \<and> length files = 6 \<and>
      map_of files Scene_splat = Some (Binary [U32 0, U32 0x53504C54]) \<and>
      map_of files Octree_idx = None)"
  using empty_export_completes [of default_config]
  by (simp add: default_config_def upt_rec)

text \<open>
  The claim as stated fails: under the default configuration the export of an empty splat
  list returns, and the four atlas files, \<^verbatim>\<open>scene.splat\<close> and \<^verbatim>\<open>metadata.json\<close> are written.
\<close>

theorem empty_dataset_error_counterexample:
  "\<exists>files. export_assets default_config [] = Inr files \<and>
     map fst files =
       [Atlas_raw 0, Atlas_raw 1, Atlas_raw 2, Atlas_raw 3, Scene_splat, Metadata_json]"
  by (simp add: export_assets_def generate_empty build_octree_index_def octree_files_def
      splat_file_def pack_I_def metadata_def enumerate_replicate default_config_def upt_rec)

lemma in_box_bounds_of [simp]: "in_box p (bounds_of lo hi) = in_octant p lo hi"
  by (cases lo; cases hi) simp

lemma build_leaves:
  assumes "\<forall>i \<in> set splat_indices. Q i \<and> in_octant (positions ! i) min_pos max_pos"
  shows "leaves_sat (\<lambda>i b. Q i \<and> in_box (positions ! i) b)
           (build_octree_recursive positions max_depth splat_indices min_pos max_pos depth)"
  using assms
proof (induction positions max_depth splat_indices min_pos max_pos depth
    rule: build_octree_recursive.induct)
  case (1 positions max_depth splat_indices min_pos max_pos depth)
  show ?case
  proof (cases "depth \<ge> max_depth \<or> length splat_indices \<le> 8")
    case True
    then show ?thesis
      using "1.prems" by (subst build_octree_recursive.simps) (auto dest: in_set_takeD)
  next
    case False
    have "\<And>octant. octant \<in> set [0..<8] \<Longrightarrow>
        \<forall>i \<in> set (octant_splats positions splat_indices
                 (octant_min octant min_pos (vhalf (vadd min_pos max_pos)))
                 (octant_max octant max_pos (vhalf (vadd min_pos max_pos)))).
          Q i \<and> in_octant (positions ! i)
                 (octant_min octant min_pos (vhalf (vadd min_pos max_pos)))
                 (octant_max octant max_pos (vhalf (vadd min_pos max_pos)))"
      using "1.prems" by (simp add: octant_splats_def)
    then show ?thesis
      using False "1.IH" by (subst build_octree_recursive.simps) (auto simp del: upt.simps)
  qed
qed

lemma set_child_offset_leaves:
  assumes "set_child_offset array node_index i v = Inr array'"
    and "\<forall>x \<in> set array. flat_leaf_sat P x"
  shows "\<forall>x \<in> set array'. flat_leaf_sat P x"
proof -
  obtain offs b where "array' = array[node_index := FInternal offs b]"
    using assms(1) by (auto simp: set_child_offset_def split: if_splits flat_node.splits)
  then show ?thesis
    using assms(2) set_update_subset_insert [of array node_index "FInternal offs b"] by auto
qed

lemma flatten_leaves:
  "leaves_sat P node \<Longrightarrow> \<forall>x \<in> set array. flat_leaf_sat P x \<Longrightarrow>
     flatten_node node array = Inr (k, array') \<Longrightarrow> \<forall>x \<in> set array'. flat_leaf_sat P x"
  "\<forall>c \<in> set children. (case c of None \<Rightarrow> True | Some t \<Rightarrow> leaves_sat P t) \<Longrightarrow>
     \<forall>x \<in> set array. flat_leaf_sat P x \<Longrightarrow>
     flatten_children node_index i children array = Inr array' \<Longrightarrow>
     \<forall>x \<in> set array'. flat_leaf_sat P x"
proof (induction node array and node_index i children array arbitrary: k array' and array'
    rule: flatten_node_flatten_children.induct)
  case (1 idxs b array)
  then show ?case by (auto simp: nth_append)
next
  case (2 children b array)
  from "2.prems"(3) obtain a1 where a1:
    "flatten_children (length array) 0 children (array @ [FInternal (replicate 8 0) b]) = Inr a1"
    "array' = a1"
    by (auto simp: bind_res_Inr_iff)
  show ?case
    using "2.IH" [OF _ _ a1(1)] "2.prems"(1,2) a1(2) by simp
next
  case (3 node_index i array)
  then show ?case by simp
next
  case (4 node_index i rest array)
  from "4.prems"(3) obtain a1 where a1: "set_child_offset array node_index i (- 1) = Inr a1"
    "flatten_children node_index (i + 1) rest a1 = Inr array'"
    by (auto simp: bind_res_Inr_iff)
  have "\<forall>x \<in> set a1. flat_leaf_sat P x"
    using set_child_offset_leaves [OF a1(1) "4.prems"(2)] .
  then show ?case
    using "4.IH" [OF _ _ a1(2)] "4.prems"(1) by simp
next
  case (5 node_index i child rest array)
  from "5.prems"(3) obtain ci a0 a1 where s: "flatten_node child array = Inr (ci, a0)"
    "set_child_offset a0 node_index i ci = Inr a1"
    "flatten_children node_index (i + 1) rest a1 = Inr array'"
    by (auto simp: bind_res_Inr_iff)
  have "\<forall>x \<in> set a0. flat_leaf_sat P x"
    using "5.IH"(1) [OF _ "5.prems"(2) s(1)] "5.prems"(1) by simp
  then have "\<forall>x \<in> set a1. flat_leaf_sat P x"
    using set_child_offset_leaves [OF s(2)] by simp
  then show ?case
    using "5.IH"(2) [OF _ _ s(3)] "5.prems"(1) by simp
qed

lemma bbox_contains:
  assumes "(p0, p1, p2) \<in> set positions" and "bbox_min positions = (a, b, c)"
    and "bbox_max positions = (d, e, f)"
  shows "a \<le> p0 \<and> p0 \<le> d \<and> b \<le> p1 \<and> p1 \<le> e \<and> c \<le> p2 \<and> p2 \<le> f"
proof -
  have "p0 \<in> fst ` set positions" "p1 \<in> (fst \<circ> snd) ` set positions"
    "p2 \<in> (snd \<circ> snd) ` set positions"
    using assms(1) by force+
  then have "Min (fst ` set positions) \<le> p0" "p0 \<le> Max (fst ` set positions)"
    "Min ((fst \<circ> snd) ` set positions) \<le> p1" "p1 \<le> Max ((fst \<circ> snd) ` set positions)"
    "Min ((snd \<circ> snd) ` set positions) \<le> p2" "p2 \<le> Max ((snd \<circ> snd) ` set positions)"
    by simp_all
  then show ?thesis using assms(2,3) by (simp add: bbox_min_def bbox_max_def)
qed

lemma cube_side:
  fixes a d m p :: real
  assumes "a \<le> p" "p \<le> d" "d - a \<le> m"
  shows "(a + d) / 2 - m * (11 / 10) / 2 \<le> p \<and> p \<le> (a + d) / 2 + m * (11 / 10) / 2"
proof -
  define k where "k = m * (11 / 10) / 2"
  have "0 \<le> m" using assms by argo
  then have k: "m / 2 \<le> k" by (simp add: k_def)
  have "(a + d) / 2 - k \<le> p" using assms k by argo
  moreover have "p \<le> (a + d) / 2 + k" using assms k by argo
  ultimately show ?thesis by (simp add: k_def)
qed

lemma root_contains:
  assumes "root_bounds positions = Inr (lo, hi)" and "p \<in> set positions"
  shows "in_octant p lo hi"
proof -
  have ne: "positions \<noteq> []" using assms(2) by auto
  obtain p0 p1 p2 where p: "p = (p0, p1, p2)" by (cases p)
  obtain a b c where mn: "bbox_min positions = (a, b, c)" by (cases "bbox_min positions")
  obtain d e f where mx: "bbox_max positions = (d, e, f)" by (cases "bbox_max positions")
  note bb = bbox_contains [OF assms(2) [unfolded p] mn mx]
  define m where "m = max (d - a) (max (e - b) (f - c))"
  have m: "d - a \<le> m" "e - b \<le> m" "f - c \<le> m"
    unfolding m_def by simp_all
  have "max3 (vsub (d, e, f) (a, b, c)) = m" by (simp add: m_def)
  then have "lo = ((a + d) / 2 + - (m * (11 / 10) / 2), (b + e) / 2 + - (m * (11 / 10) / 2),
              (c + f) / 2 + - (m * (11 / 10) / 2)) \<and>
    hi = ((a + d) / 2 + m * (11 / 10) / 2, (b + e) / 2 + m * (11 / 10) / 2,
              (c + f) / 2 + m * (11 / 10) / 2)"
    using assms(1) unfolding root_bounds_eq [OF ne] mn mx by simp
  then have "in_octant (p0, p1, p2) lo hi"
    using cube_side [of a p0 d m] cube_side [of b p1 e m] cube_side [of c p2 f m] bb m
    by simp
  then show ?thesis by (simp add: p)
qed

lemma flat_leaf_sat_mono:
  "flat_leaf_sat P x \<Longrightarrow> (\<And>i b. P i b \<Longrightarrow> P' i b) \<Longrightarrow> flat_leaf_sat P' x"
  by (cases x) auto

lemma octree_leaves:
  assumes "build_octree_index cfg ss = Inr (Some a)"
  shows "\<forall>x \<in> set a. flat_leaf_sat (\<lambda>i b. i < length ss \<and> in_box (pos (ss ! i)) b) x"
proof -
  have ne: "ss \<noteq> []" using assms by (auto simp: build_octree_index_def)
  obtain lo hi ri where rb: "root_bounds (map pos ss) = Inr (lo, hi)"
    and fl: "flatten_node (build_octree_recursive (map pos ss) (max_octree_depth cfg)
               [0..<length ss] lo hi 0) [] = Inr (ri, a)"
    using assms ne
    by (auto simp: build_octree_index_def bind_res_Inr_iff flatten_octree_def)
  have "\<forall>i \<in> set [0..<length ss]. i < length ss \<and> in_octant (map pos ss ! i) lo hi"
    using root_contains [OF rb] by simp
  then have "leaves_sat (\<lambda>i b. i < length ss \<and> in_box (map pos ss ! i) b)
      (build_octree_recursive (map pos ss) (max_octree_depth cfg) [0..<length ss] lo hi 0)"
    by (rule build_leaves)
  then have "\<forall>x \<in> set a. flat_leaf_sat (\<lambda>i b. i < length ss \<and> in_box (map pos ss ! i) b) x"
    using flatten_leaves(1) [OF _ _ fl] by simp
  then show ?thesis
    by (auto elim!: flat_leaf_sat_mono)
qed

lemma export_returns:
  assumes "export_assets cfg ss = Inr files"
  shows "\<exists>st octree octree_part splats_part.
           generate_texture_atlas cfg ss = Inr st \<and>
           build_octree_index cfg (self_splats st) = Inr octree \<and>
           octree_files cfg octree = Inr octree_part \<and>
           splat_file (self_splats st) = Inr splats_part \<and>
           files = map (\<lambda>(i, a). (Atlas_raw i, Binary (atlas_bytes (atlas_size cfg) a)))
                     (enumerate 0 (atlases st)) @
                   octree_part @
                   [(Scene_splat, Binary splats_part),
                    (Metadata_json, Json (metadata cfg (self_splats st) octree))]"
  using assms unfolding export_assets_def by (auto simp: bind_res_Inr_iff)

lemma octree_part_cases:
  assumes "octree_files cfg octree = Inr part"
  shows "part = [] \<or> (\<exists>a c. octree = Some a \<and> a \<noteq> [] \<and> octree_file cfg a = Inr c \<and>
                          part = [(Octree_idx, Binary c)])"
  using assms by (auto simp: octree_files_def bind_res_Inr_iff split: option.splits if_splits)

lemma map_of_not_in: "k \<notin> fst ` set xs \<Longrightarrow> map_of (xs @ ys) k = map_of ys k"
proof -
  assume "k \<notin> fst ` set xs"
  then have "map_of xs k = None" by (simp add: map_of_eq_None_iff)
  then show ?thesis by (simp add: map_add_def)
qed

lemma lookup_scene_splat:
  assumes "octree_files cfg octree = Inr part"
  shows "map_of (map (\<lambda>(i, a). (Atlas_raw i, Binary (f a))) xs @ part @
           [(Scene_splat, Binary c), (Metadata_json, m)]) Scene_splat = Some (Binary c)"
proof -
  have 1: "Scene_splat \<notin> fst ` set (map (\<lambda>(i, a). (Atlas_raw i, Binary (f a))) xs)"
    by auto
  have 2: "Scene_splat \<notin> fst ` set part"
    using octree_part_cases [OF assms] by auto
  show ?thesis
    unfolding map_of_not_in [OF 1] map_of_not_in [OF 2] by simp
qed

lemma lookup_octree_idx:
  assumes "octree_files cfg octree = Inr part"
  shows "map_of (map (\<lambda>(i, a). (Atlas_raw i, Binary (f a))) xs @ part @
           [(Scene_splat, Binary c), (Metadata_json, m)]) Octree_idx = map_of part Octree_idx"
proof -
  have 1: "Octree_idx \<notin> fst ` set (map (\<lambda>(i, a). (Atlas_raw i, Binary (f a))) xs)"
    by auto
  have 2: "Octree_idx \<notin> fst ` set part \<Longrightarrow> map_of part Octree_idx = None"
    by (simp add: map_of_eq_None_iff)
  show ?thesis
    unfolding map_of_not_in [OF 1]
    using octree_part_cases [OF assms] by (auto simp del: map_of_append)
qed

lemma build_octree_index_positions:
  assumes "map pos ss = map pos ss'"
  shows "build_octree_index cfg ss = build_octree_index cfg ss'"
proof -
  have "length ss = length ss'" using assms by (metis length_map)
  then show ?thesis using assms by (auto simp: build_octree_index_def)
qed

lemma ingested_positions:
  assumes "map ingested ss = map ingested ss'"
  shows "map pos ss = map pos ss'"
proof -
  have "map pos ss = map (pos \<circ> ingested) ss" by (simp add: ingested_def)
  also have "\<dots> = map pos (map ingested ss)" by simp
  also have "\<dots> = map pos (map ingested ss')" using assms by simp
  also have "\<dots> = map pos ss'" by (simp add: ingested_def)
  finally show ?thesis .
qed

lemma nth_record:
  "i < length ss \<Longrightarrow> take 20 (drop (20 * i) (concat (map splat_record ss))) = splat_record (ss ! i)"
proof (induction ss arbitrary: i)
  case Nil
  then show ?case by simp
next
  case (Cons s ss)
  show ?case
  proof (cases i)
    case 0
    then show ?thesis by (simp add: splat_record_length)
  next
    case (Suc j)
    then show ?thesis using Cons by (simp add: splat_record_length)
  qed
qed

lemma scene_record_nth:
  "i < length ss \<Longrightarrow>
     scene_record ([U32 n, U32 m] @ concat (map splat_record ss)) i = splat_record (ss ! i)"
  using nth_record [of i ss] by (simp add: scene_record_def)

lemma pack_all_total:
  assumes "\<And>x. x \<in> set xs \<Longrightarrow> \<exists>c. f x = Inr c"
  shows "\<exists>c. pack_all f xs = Inr c"
  using assms
proof (induction xs)
  case Nil
  then show ?case by simp
next
  case (Cons x xs)
  obtain a where a: "f x = Inr a" using Cons.prems by (meson list.set_intros(1))
  obtain b where b: "pack_all f xs = Inr b"
    using Cons.IH Cons.prems by (meson list.set_intros(2))
  show ?case by (simp add: a b)
qed

lemma leaf_slots_bounded:
  assumes "node_ok p n (FLeaf cnt idxs b)"
    and "flat_leaf_sat (\<lambda>i b. i < m \<and> Q i b) (FLeaf cnt idxs b)" and "idx \<in> set idxs"
  shows "idx < max m 1"
proof -
  obtain k where k: "k < length idxs" "idxs ! k = idx"
    using assms(3) by (auto simp: in_set_conv_nth)
  show ?thesis
  proof (cases "k < cnt")
    case True
    then show ?thesis using assms(2) k by auto
  next
    case False
    then have "idxs ! k = drop cnt idxs ! (k - cnt)" using k(1) by simp
    also have "\<dots> = 0" using assms(1) k(1) False by simp
    finally show ?thesis using k(2) by simp
  qed
qed

lemma node_fields_total:
  assumes "node_ok p n node" and "flat_leaf_sat (\<lambda>i b. i < m \<and> Q i b) node"
    and "n < 2 ^ 31" and "m < 2 ^ 32"
  shows "\<exists>c. node_fields node = Inr c"
proof (cases node)
  case (FLeaf cnt idxs b)
  have cnt: "pack_I (int cnt) = Inr [U32 (int cnt)]"
    using assms(1) by (simp add: FLeaf pack_I_def)
  have "\<And>idx. idx \<in> set idxs \<Longrightarrow> \<exists>c. pack_I (int idx) = Inr c"
  proof -
    fix idx assume "idx \<in> set idxs"
    then have "idx < max m 1" using leaf_slots_bounded assms(1,2) unfolding FLeaf by blast
    then have "int idx < 2 ^ 32" using assms(4) by (auto simp: max_def split: if_splits)
    then show "\<exists>c. pack_I (int idx) = Inr c" by (simp add: pack_I_def)
  qed
  then obtain slots where "pack_all (\<lambda>idx. pack_I (int idx)) idxs = Inr slots"
    using pack_all_total [of idxs "\<lambda>idx. pack_I (int idx)"] by blast
  moreover have "pack_I 1 = Inr [U32 1]" by (simp add: pack_I_def)
  ultimately show ?thesis by (simp add: FLeaf cnt)
next
  case (FInternal offs b)
  have "\<And>off. off \<in> set offs \<Longrightarrow> \<exists>c. pack_i off = Inr c"
  proof -
    fix off assume "off \<in> set offs"
    then have "off = - 1 \<or> (int p < off \<and> off < int n)"
      using assms(1) by (simp add: FInternal)
    moreover have "int n < 2 ^ 31" using assms(3) by (simp add: of_nat_less_numeral_power_cancel_iff)
    ultimately show "\<exists>c. pack_i off = Inr c" by (auto simp: pack_i_def)
  qed
  then obtain slots where "pack_all pack_i offs = Inr slots"
    using pack_all_total [of offs pack_i] by blast
  moreover have "pack_I 0 = Inr [U32 0]" by (simp add: pack_I_def)
  ultimately show ?thesis by (simp add: FInternal)
qed

lemma splat_file_total:
  "length ss < 2 ^ 32 \<Longrightarrow> \<exists>c. splat_file ss = Inr c"
  by (simp add: splat_file_def pack_I_def of_nat_less_numeral_power_cancel_iff)

lemma octree_file_total:
  assumes "\<forall>p < length a. node_ok p (length a) (a ! p)"
    and "\<forall>x \<in> set a. flat_leaf_sat (\<lambda>i b. i < m \<and> Q i b) x"
    and "length a < 2 ^ 31" and "m < 2 ^ 32"
    and "0 \<le> max_octree_depth cfg" and "max_octree_depth cfg < 2 ^ 32"
  shows "\<exists>c. octree_file cfg a = Inr c"
proof -
  have "\<And>x. x \<in> set a \<Longrightarrow> \<exists>c. node_fields x = Inr c"
  proof -
    fix x assume x: "x \<in> set a"
    then obtain p where p: "p < length a" "a ! p = x" by (auto simp: in_set_conv_nth)
    show "\<exists>c. node_fields x = Inr c"
      using node_fields_total [of p "length a" x m Q] assms(1-4) p x by auto
  qed
  then obtain nodes where n: "pack_all node_fields a = Inr nodes"
    using pack_all_total [of a node_fields] by blast
  have "int (length a) < 2 ^ 32"
    using assms(3) by (simp add: of_nat_less_numeral_power_cancel_iff)
  then have c: "pack_I (int (length a)) = Inr [U32 (int (length a))]"
    by (simp add: pack_I_def)
  have d: "pack_I (max_octree_depth cfg) = Inr [U32 (max_octree_depth cfg)]"
    using assms(5,6) by (simp add: pack_I_def)
  show ?thesis by (simp add: octree_file_def n c d)
qed

lemma export_total:
  assumes "1 \<le> atlas_layers cfg" and "0 \<le> atlas_size cfg"
    and "\<forall>s \<in> set ss. splat_size s \<le> atlas_size cfg \<and> color_ok s"
    and "0 \<le> max_octree_depth cfg" and "max_octree_depth cfg < 2 ^ 32"
    and "length ss < 2 ^ 32"
    and "\<forall>a. build_octree_index cfg ss = Inr (Some a) \<longrightarrow> length a < 2 ^ 31"
  shows "\<exists>files. export_assets cfg ss = Inr files"
proof -
  obtain st where st: "generate_texture_atlas cfg ss = Inr st"
    using generate_total [OF assms(1-3)] by blast
  note k = generate_keeps [OF st]
  have b: "build_octree_index cfg (self_splats st) = build_octree_index cfg ss"
    using build_octree_index_positions ingested_positions k by blast
  obtain sp where sp: "splat_file (self_splats st) = Inr sp"
    using splat_file_total [of "self_splats st"] k assms(6) by auto
  have "\<exists>octree part. build_octree_index cfg ss = Inr octree \<and> octree_files cfg octree = Inr part"
  proof (cases "ss = []")
    case True
    then show ?thesis by (simp add: build_octree_index_def octree_files_def)
  next
    case False
    obtain a where a: "build_octree_index cfg ss = Inr (Some a)" "a \<noteq> []"
      "\<forall>p < length a. node_ok p (length a) (a ! p)"
      using build_octree_index_ok [OF False] by blast
    have "\<exists>c. octree_file cfg a = Inr c"
      using octree_file_total [OF a(3) octree_leaves [OF a(1)] _ assms(6,4,5)] assms(7) a(1)
      by blast
    then show ?thesis using a by (auto simp: octree_files_def)
  qed
  then show ?thesis
    using st b sp by (auto simp: export_assets_def)
qed

lemma two_splats_octree:
  "\<exists>x. build_octree_index default_config two_splats = Inr (Some [x])"
  by (simp add: two_splats_def build_octree_index_def root_bounds_def sample_splat_def
      flatten_octree_def build_octree_recursive.simps default_config_def)

lemma two_splats_export: "\<exists>files. export_assets default_config two_splats = Inr files"
proof (rule export_total)
  show "1 \<le> atlas_layers default_config" "0 \<le> atlas_size default_config"
    "0 \<le> max_octree_depth default_config" "max_octree_depth default_config < 2 ^ 32"
    by (simp_all add: default_config_def)
  show "\<forall>s \<in> set two_splats. splat_size s \<le> atlas_size default_config \<and> color_ok s"
    by (simp add: two_splats_def default_config_def sample_splat_def splat_size_def py_int_def
        color_ok_def unit_range_def)
  show "length two_splats < 2 ^ 32" by (simp add: two_splats_def)
  show "\<forall>a. build_octree_index default_config two_splats = Inr (Some a) \<longrightarrow> length a < 2 ^ 31"
    using two_splats_octree by auto
qed

text \<open>
  Claim C2, as amended. Whenever \<^verbatim>\<open>export_assets\<close> returns, \<^verbatim>\<open>scene.splat\<close> holds the
  4-byte splat count, the 4-byte magic constant \<open>0x53504C54\<close> and then one record per splat
  in order. Every record is 80 bytes: 12 bytes position and 4 bytes pad, 24 bytes
  covariance and 8 bytes pad, 16 bytes colour and alpha, 16 bytes atlas u, v, size, layer.
  The file is \<open>8 + 80 n\<close> bytes for \<open>n\<close> splats.
\<close>

theorem scene_splat_record_layout:
  assumes "export_assets cfg ss = Inr files"
  shows "\<exists>st. generate_texture_atlas cfg ss = Inr st \<and> length (self_splats st) = length ss \<and>
     map_of files Scene_splat =
       Some (Binary ([U32 (int (length ss)), U32 0x53504C54] @
                     concat (map splat_record (self_splats st)))) \<and>
     byte_size ([U32 (int (length ss)), U32 0x53504C54] @
                concat (map splat_record (self_splats st))) = 8 + 80 * length ss \<and>
     (\<forall>s. splat_record s =
            position_fields s @ [F32 0] @ covariance_fields s @ [F32 0, F32 0] @
            color_alpha_fields s @ atlas_fields s \<and>
          byte_size (position_fields s) = 12 \<and> byte_size (covariance_fields s) = 24 \<and>
          byte_size (color_alpha_fields s) = 16 \<and> byte_size (atlas_fields s) = 16 \<and>
          byte_size (splat_record s) = 80)"
proof -
  obtain st octree part sp where e: "generate_texture_atlas cfg ss = Inr st"
    "octree_files cfg octree = Inr part" "splat_file (self_splats st) = Inr sp"
    "files = map (\<lambda>(i, a). (Atlas_raw i, Binary (atlas_bytes (atlas_size cfg) a)))
               (enumerate 0 (atlases st)) @ part @
             [(Scene_splat, Binary sp), (Metadata_json, Json (metadata cfg (self_splats st) octree))]"
    using export_returns [OF assms] by blast
  note k = generate_keeps [OF e(1)]
  have sp: "sp = [U32 (int (length ss)), U32 0x53504C54] @ concat (map splat_record (self_splats st))"
    using splat_file_eq [OF e(3)] k by simp
  have l: "map_of files Scene_splat = Some (Binary sp)"
    unfolding e(4) using lookup_scene_splat [OF e(2)] by (simp add: case_prod_unfold)
  have z: "byte_size sp = 8 + 80 * length ss"
    unfolding sp using k by (simp add: records_size)
  show ?thesis
    using e(1) k l z unfolding sp
    by (auto simp: splat_record_size part_sizes splat_record_def)
qed

theorem scene_splat_record_layout_witness:
  "\<exists>files st. export_assets default_config two_splats = Inr files \<and>
     generate_texture_atlas default_config two_splats = Inr st \<and>
     map_of files Scene_splat =
       Some (Binary ([U32 2, U32 0x53504C54] @ concat (map splat_record (self_splats st)))) \<and>
     byte_size ([U32 2, U32 0x53504C54] @ concat (map splat_record (self_splats st))) = 168"
proof -
  obtain files where f: "export_assets default_config two_splats = Inr files"
    using two_splats_export by blast
  show ?thesis
    using scene_splat_record_layout [OF f] f by (auto simp: two_splats_def)
qed

text \<open>The claim as stated fails: a record is 80 bytes, not 68.\<close>

theorem record_size_68_counterexample:
  "byte_size (splat_record (sample_splat (0, 0, 0) (1 / 10))) = 80 \<and>
   byte_size (splat_record (sample_splat (0, 0, 0) (1 / 10))) \<noteq> 68"
  by (simp add: splat_record_def position_fields_def covariance_fields_def color_alpha_fields_def
      atlas_fields_def sample_splat_def)

lemma octree_written:
  assumes "octree_files cfg (Some a) = Inr part" and "a \<noteq> []"
  shows "\<exists>oc. octree_file cfg a = Inr oc \<and> part = [(Octree_idx, Binary oc)]"
  using assms by (auto simp: octree_files_def bind_res_Inr_iff)

lemma build_some_nonempty:
  assumes "build_octree_index cfg ss = Inr (Some a)"
  shows "a \<noteq> []"
proof -
  have "ss \<noteq> []" using assms by (auto simp: build_octree_index_def)
  then show ?thesis using build_octree_index_ok [of ss cfg] assms by auto
qed

text \<open>
  Claim C10. Whenever \<^verbatim>\<open>export_assets\<close> returns: the packer has left the canonical list in
  its ingestion order and changed nothing of a splat but its atlas assignment; the
  \<open>i\<close>-th record of \<^verbatim>\<open>scene.splat\<close> is the record of the \<open>i\<close>-th splat of that list; the octree
  written to \<^verbatim>\<open>octree.idx\<close> is built from the same list, and every index among the first
  \<open>splat_count\<close> slots of a leaf is below the number of splats and names a splat whose
  position lies within the bounds of that leaf. So a leaf index \<open>i\<close> addresses the \<open>i\<close>-th
  record of \<^verbatim>\<open>scene.splat\<close>.
\<close>

theorem leaf_indices_address_scene_records:
  assumes "export_assets cfg ss = Inr files"
  shows "\<exists>st octree c.
     generate_texture_atlas cfg ss = Inr st \<and>
     length (self_splats st) = length ss \<and>
     map ingested (self_splats st) = map ingested ss \<and>
     build_octree_index cfg (self_splats st) = Inr octree \<and>
     map_of files Scene_splat = Some (Binary c) \<and>
     (\<forall>i < length ss. scene_record c i = splat_record (self_splats st ! i) \<and>
        ingested (self_splats st ! i) = ingested (ss ! i)) \<and>
     (\<forall>a. octree = Some a \<longrightarrow>
        (\<exists>oc. octree_file cfg a = Inr oc \<and> map_of files Octree_idx = Some (Binary oc)) \<and>
        (\<forall>x \<in> set a. flat_leaf_sat (\<lambda>i b. i < length ss \<and> in_box (pos (ss ! i)) b) x))"
proof -
  obtain st octree part sp where e: "generate_texture_atlas cfg ss = Inr st"
    "build_octree_index cfg (self_splats st) = Inr octree"
    "octree_files cfg octree = Inr part" "splat_file (self_splats st) = Inr sp"
    "files = map (\<lambda>(i, a). (Atlas_raw i, Binary (atlas_bytes (atlas_size cfg) a)))
               (enumerate 0 (atlases st)) @ part @
             [(Scene_splat, Binary sp), (Metadata_json, Json (metadata cfg (self_splats st) octree))]"
    using export_returns [OF assms] by blast
  note k = generate_keeps [OF e(1)]
  have len: "length (self_splats st) = length ss" using k by simp
  have ing: "\<And>i. i < length ss \<Longrightarrow> ingested (self_splats st ! i) = ingested (ss ! i)"
  proof -
    fix i assume i: "i < length ss"
    have "map ingested (self_splats st) ! i = map ingested ss ! i" using k by simp
    then show "ingested (self_splats st ! i) = ingested (ss ! i)" using i len by simp
  qed
  have sp: "sp = [U32 (int (length ss)), U32 0x53504C54] @ concat (map splat_record (self_splats st))"
    using splat_file_eq [OF e(4)] k by simp
  have l: "map_of files Scene_splat = Some (Binary sp)"
    unfolding e(5) using lookup_scene_splat [OF e(3)] by (simp add: case_prod_unfold)
  have rec: "\<forall>i < length ss. scene_record sp i = splat_record (self_splats st ! i) \<and>
        ingested (self_splats st ! i) = ingested (ss ! i)"
    unfolding sp using scene_record_nth [of _ "self_splats st"] len ing by simp
  have oct: "\<forall>a. octree = Some a \<longrightarrow>
        (\<exists>oc. octree_file cfg a = Inr oc \<and> map_of files Octree_idx = Some (Binary oc)) \<and>
        (\<forall>x \<in> set a. flat_leaf_sat (\<lambda>i b. i < length ss \<and> in_box (pos (ss ! i)) b) x)"
  proof (intro allI impI)
    fix a assume a: "octree = Some a"
    have b: "build_octree_index cfg (self_splats st) = Inr (Some a)" using e(2) a by simp
    obtain oc where oc: "octree_file cfg a = Inr oc" "part = [(Octree_idx, Binary oc)]"
      using octree_written [OF e(3) [unfolded a] build_some_nonempty [OF b]] by blast
    have w: "map_of files Octree_idx = Some (Binary oc)"
      unfolding e(5) using lookup_octree_idx [OF e(3)] oc(2) by (simp add: case_prod_unfold)
    have lv: "\<forall>x \<in> set a. flat_leaf_sat
        (\<lambda>i b. i < length (self_splats st) \<and> in_box (pos (self_splats st ! i)) b) x"
      using octree_leaves [OF b] .
    have tr: "\<And>i b. i < length (self_splats st) \<and> in_box (pos (self_splats st ! i)) b \<Longrightarrow>
        i < length ss \<and> in_box (pos (ss ! i)) b"
    proof -
      fix i b assume h: "i < length (self_splats st) \<and> in_box (pos (self_splats st ! i)) b"
      then have i: "i < length ss" using len by simp
      have "pos (self_splats st ! i) = pos (ss ! i)"
        using ingested_fields(3) [OF ing [OF i]] .
      then show "i < length ss \<and> in_box (pos (ss ! i)) b" using h i by simp
    qed
    have "\<forall>x \<in> set a. flat_leaf_sat (\<lambda>i b. i < length ss \<and> in_box (pos (ss ! i)) b) x"
    proof
      fix x assume "x \<in> set a"
      then have "flat_leaf_sat
        (\<lambda>i b. i < length (self_splats st) \<and> in_box (pos (self_splats st ! i)) b) x"
        using lv by simp
      then show "flat_leaf_sat (\<lambda>i b. i < length ss \<and> in_box (pos (ss ! i)) b) x"
        by (rule flat_leaf_sat_mono) (rule tr)
    qed
    then show "(\<exists>oc. octree_file cfg a = Inr oc \<and> map_of files Octree_idx = Some (Binary oc)) \<and>
        (\<forall>x \<in> set a. flat_leaf_sat (\<lambda>i b. i < length ss \<and> in_box (pos (ss ! i)) b) x)"
      using oc(1) w by blast
  qed
  have m: "map ingested (self_splats st) = map ingested ss" using k by simp
  show ?thesis
    by (intro exI [of _ st] exI [of _ octree] exI [of _ sp] conjI) (fact e(1) len m e(2) l rec oct)+
qed

theorem leaf_indices_address_scene_records_witness:
  "\<exists>files st c. export_assets default_config two_splats = Inr files \<and>
     generate_texture_atlas default_config two_splats = Inr st \<and>
     map_of files Scene_splat = Some (Binary c) \<and>
     scene_record c 0 = splat_record (self_splats st ! 0) \<and>
     scene_record c 1 = splat_record (self_splats st ! 1) \<and>
     ingested (self_splats st ! 1) = ingested (sample_splat (1, 0, 0) (1 / 2))"
proof -
  obtain files where f: "export_assets default_config two_splats = Inr files"
    using two_splats_export by blast
  obtain st octree c where r: "generate_texture_atlas default_config two_splats = Inr st"
    "map_of files Scene_splat = Some (Binary c)"
    "\<forall>i < length two_splats. scene_record c i = splat_record (self_splats st ! i) \<and>
        ingested (self_splats st ! i) = ingested (two_splats ! i)"
    using leaf_indices_address_scene_records [OF f] by blast
  have "scene_record c 0 = splat_record (self_splats st ! 0)"
    "scene_record c 1 = splat_record (self_splats st ! 1)"
    "ingested (self_splats st ! 1) = ingested (sample_splat (1, 0, 0) (1 / 2))"
    using r(3) by (simp_all add: two_splats_def)
  then show ?thesis using f r(1,2) by blast
qed


end
